theory Spec2Isabelle
  imports Main "HOL-Library.Word"
begin

section \<open>Python string operations used by the provisioner\<close>

text \<open>
  Python strings are modelled as \<open>string\<close> (a list of 8-bit characters). Every string the
  provisioner handles is ASCII text (shell commands, hexadecimal addresses, paths built
  from ASCII fragments), and the operations below are the restriction of the Python
  \<^verbatim>\<open>str\<close> methods to ASCII.
\<close>

definition lower_char :: "char \<Rightarrow> char" where
  "lower_char c =
     (case map_of (zip ''ABCDEFGHIJKLMNOPQRSTUVWXYZ'' ''abcdefghijklmnopqrstuvwxyz'') c of
        Some d \<Rightarrow> d
      | None \<Rightarrow> c)"

text \<open>\<^verbatim>\<open>s.lower()\<close>\<close>

definition lower :: "string \<Rightarrow> string" where
  "lower s = map lower_char s"

text \<open>
  \<^verbatim>\<open>s.replace("0x", "")\<close>: every non-overlapping occurrence of \<^verbatim>\<open>0x\<close>, scanning from
  the left, is removed; the text produced by a removal is not scanned again.
\<close>

fun replace_0x :: "string \<Rightarrow> string" where
  "replace_0x (a # b # r) =
     (if a = CHR ''0'' \<and> b = CHR ''x'' then replace_0x r else a # replace_0x (b # r))"
| "replace_0x r = r"

text \<open>\<^verbatim>\<open>"00" * n\<close>\<close>

definition zeros_hex :: "nat \<Rightarrow> string" where
  "zeros_hex n = concat (replicate n ''00'')"

definition hex_digit :: "nat \<Rightarrow> char" where
  "hex_digit d = ''0123456789abcdef'' ! d"

fun hex_digits :: "nat \<Rightarrow> string" where
  "hex_digits n = (if n < 16 then [hex_digit n] else hex_digits (n div 16) @ [hex_digit (n mod 16)])"

declare hex_digits.simps [simp del]

text \<open>\<^verbatim>\<open>hex(n)\<close> on a Python integer\<close>

definition hex :: "int \<Rightarrow> string" where
  "hex n = (if n < 0 then ''-0x'' @ hex_digits (nat (- n)) else ''0x'' @ hex_digits (nat n))"

definition dec_digit :: "nat \<Rightarrow> char" where
  "dec_digit d = ''0123456789'' ! d"

fun dec_digits :: "nat \<Rightarrow> string" where
  "dec_digits n = (if n < 10 then [dec_digit n] else dec_digits (n div 10) @ [dec_digit (n mod 10)])"

declare dec_digits.simps [simp del]

text \<open>\<^verbatim>\<open>str(n)\<close> and \<^verbatim>\<open>f"{n}"\<close> on a Python integer\<close>

definition str_int :: "int \<Rightarrow> string" where
  "str_int n = (if n < 0 then ''-'' @ dec_digits (nat (- n)) else dec_digits (nat n))"

section \<open>The genesis descriptor\<close>

text \<open>
  The dictionary returned by \<^verbatim>\<open>build_clique_genesis\<close>, one field per key; the nested
  \<^verbatim>\<open>config\<close> dictionary is flattened (\<open>clique_period\<close>, \<open>clique_epoch\<close>), its empty
  \<^verbatim>\<open>ethash\<close> entry and the empty \<^verbatim>\<open>alloc\<close> table are association lists.
\<close>

record genesis_obj =
  chainId :: int
  clique_period :: int
  clique_epoch :: int
  ethash :: "(string \<times> string) list"
  nonce :: string
  g_timestamp :: string
  extraData :: string
  gasLimit :: string
  difficulty :: string
  mixhash :: string
  coinbase :: string
  alloc :: "(string \<times> string) list"

definition build_clique_genesis :: "int \<Rightarrow> string list \<Rightarrow> int \<Rightarrow> genesis_obj" where
  "build_clique_genesis chain_id signer_addresses gas_limit =
     (let vanity = zeros_hex 32;
          signers_hex = concat (map (\<lambda>addr. replace_0x (lower addr)) signer_addresses);
          tail = zeros_hex 65;
          extra = ''0x'' @ vanity @ signers_hex @ tail
      in \<lparr> chainId = chain_id,
           clique_period = 1,
           clique_epoch = 30000,
           ethash = [],
           nonce = ''0x0'',
           g_timestamp = ''0x0'',
           extraData = extra,
           gasLimit = hex gas_limit,
           difficulty = ''0x1'',
           mixhash = ''0x0000000000000000000000000000000000000000000000000000000000000000'',
           coinbase = ''0x0000000000000000000000000000000000000000'',
           alloc = [] \<rparr>)"

text \<open>The default of the \<^verbatim>\<open>gasLimit\<close> parameter.\<close>

definition default_gas_limit :: int where
  "default_gas_limit = 8000000"

section \<open>What the extra-data field denotes\<close>

text \<open>
  The genesis file carries \<open>extraData\<close> as a hexadecimal string. Its byte content is
  what the node software reads: two hexadecimal digits (either case) per byte.
\<close>

definition hex_val :: "char \<Rightarrow> nat option" where
  "hex_val c =
     map_of (zip ''0123456789abcdef'' [0, 1, 2, 3, 4, 5, 6, 7, 8, 9, 10, 11, 12, 13, 14, 15] @
             zip ''ABCDEF'' [10, 11, 12, 13, 14, 15]) c"

definition is_hex :: "char \<Rightarrow> bool" where
  "is_hex c = (hex_val c \<noteq> None)"

fun decode_hex :: "string \<Rightarrow> 8 word list option" where
  "decode_hex [] = Some []"
| "decode_hex [c] = None"
| "decode_hex (a # b # r) =
     (case (hex_val a, hex_val b, decode_hex r) of
        (Some x, Some y, Some bs) \<Rightarrow> Some (word_of_nat (16 * x + y) # bs)
      | _ \<Rightarrow> None)"

text \<open>
  An authority address in its usual rendering: the prefix \<^verbatim>\<open>0x\<close> and forty hexadecimal
  digits, that is 20 bytes.
\<close>

definition valid_address :: "string \<Rightarrow> bool" where
  "valid_address a =
     (take 2 a = ''0x'' \<and> length a = 42 \<and> list_all is_hex (drop 2 a))"

definition address_bytes :: "string \<Rightarrow> 8 word list option" where
  "address_bytes a = (if take 2 a = ''0x'' then decode_hex (drop 2 a) else None)"

section \<open>Port assignment\<close>

definition HTTP_BASE :: int where
  "HTTP_BASE = 8545"

definition P2P_BASE :: int where
  "P2P_BASE = 30303"

definition get_node_http_port :: "int \<Rightarrow> int" where
  "get_node_http_port idx = HTTP_BASE + (idx - 1)"

definition get_node_p2p_port :: "int \<Rightarrow> int" where
  "get_node_p2p_port idx = P2P_BASE + (idx - 1)"

section \<open>More string operations: paths and the parsing of the account report\<close>

text \<open>\<^verbatim>\<open>os.path.join(a, b)\<close> on a POSIX system.\<close>

definition path_join :: "string \<Rightarrow> string \<Rightarrow> string" where
  "path_join a b =
     (if take 1 b = ''/'' then b
      else if a = [] \<or> last a = CHR ''/'' then a @ b
      else a @ ''/'' @ b)"

text \<open>The ASCII characters that \<^verbatim>\<open>str.strip()\<close> removes.\<close>

definition is_space :: "char \<Rightarrow> bool" where
  "is_space c =
     (c \<in> set [CHR 0x09, CHR 0x0A, CHR 0x0B, CHR 0x0C, CHR 0x0D,
                CHR 0x1C, CHR 0x1D, CHR 0x1E, CHR 0x1F, CHR '' ''])"

text \<open>\<^verbatim>\<open>s.strip()\<close>\<close>

definition strip :: "string \<Rightarrow> string" where
  "strip s = rev (dropWhile is_space (rev (dropWhile is_space s)))"

text \<open>The ASCII line boundaries of \<^verbatim>\<open>str.splitlines()\<close>; CR LF counts as one.\<close>

definition is_linebreak :: "char \<Rightarrow> bool" where
  "is_linebreak c =
     (c \<in> set [CHR 0x0A, CHR 0x0B, CHR 0x0C, CHR 0x0D, CHR 0x1C, CHR 0x1D, CHR 0x1E])"

fun splitlines_from :: "string \<Rightarrow> string \<Rightarrow> string list" where
  "splitlines_from cur [] = (if cur = [] then [] else [rev cur])"
| "splitlines_from cur [c] = (if is_linebreak c then [rev cur] else [rev (c # cur)])"
| "splitlines_from cur (c # d # r) =
     (if c = CHR 0x0D \<and> d = CHR 0x0A then rev cur # splitlines_from [] r
      else if is_linebreak c then rev cur # splitlines_from [] (d # r)
      else splitlines_from (c # cur) (d # r))"

text \<open>\<^verbatim>\<open>s.splitlines()\<close>\<close>

definition splitlines :: "string \<Rightarrow> string list" where
  "splitlines s = splitlines_from [] s"

text \<open>\<^verbatim>\<open>p in s\<close> on strings\<close>

fun str_contains :: "string \<Rightarrow> string \<Rightarrow> bool" where
  "str_contains p [] = (p = [])"
| "str_contains p (c # s) = (take (length p) (c # s) = p \<or> str_contains p s)"

text \<open>
  \<^verbatim>\<open>re.search(r'0x[0-9a-fA-F]+', line)\<close>: the leftmost place where \<^verbatim>\<open>0x\<close> is followed
  by a hexadecimal digit, and there the longest run of digits; \<open>None\<close> when no place
  matches.
\<close>

fun re_search_addr :: "string \<Rightarrow> string option" where
  "re_search_addr (a # b # r) =
     (if a = CHR ''0'' \<and> b = CHR ''x'' \<and> takeWhile is_hex r \<noteq> []
      then Some (''0x'' @ takeWhile is_hex r)
      else re_search_addr (b # r))"
| "re_search_addr r = None"

text \<open>
  The loop of \<^verbatim>\<open>create_account\<close> over the lines of the report: the first line that
  contains \<^verbatim>\<open>Address\<close> and in which the pattern matches gives the address.
\<close>

fun parse_address :: "string list \<Rightarrow> string option" where
  "parse_address [] = None"
| "parse_address (line # ls) =
     (if str_contains ''Address'' line
      then (case re_search_addr line of Some m \<Rightarrow> Some m | None \<Rightarrow> parse_address ls)
      else parse_address ls)"

text \<open>
  \<^verbatim>\<open>xs[i]\<close> on a Python list: a negative index counts from the end, an index out of
  range raises \<^verbatim>\<open>IndexError\<close> (here \<open>None\<close>).
\<close>

definition py_index :: "'a list \<Rightarrow> int \<Rightarrow> 'a option" where
  "py_index xs i =
     (let j = (if i < 0 then i + int (length xs) else i)
      in if 0 \<le> j \<and> j < int (length xs) then Some (xs ! nat j) else None)"

text \<open>\<^verbatim>\<open>enumerate(xs, start=1)\<close>\<close>

definition enumerate1 :: "'a list \<Rightarrow> (int \<times> 'a) list" where
  "enumerate1 xs = zip [1..int (length xs)] xs"

section \<open>The outside world\<close>

text \<open>
  What the provisioner asks of its surroundings is an oracle of the run:
  \<^item> \<open>shell\<close>: the result of \<^verbatim>\<open>subprocess.run(cmd, shell=True, capture_output=True)\<close>,
    by command line;
  \<^item> \<open>popen_out\<close>: the standard output of \<^verbatim>\<open>Popen(cmd, shell=True, cwd=...)\<close> read by
    \<^verbatim>\<open>communicate()\<close>, by command line and working directory;
  \<^item> \<open>node_info\<close>: what the \<open>k\<close>-th call (from 0) of \<^verbatim>\<open>admin.node_info()\<close> on the node
    at an RPC port does: an exception is raised inside the \<^verbatim>\<open>try\<close> block (by the call
    or by reading the reply), or the call returns a record whose \<^verbatim>\<open>enode\<close> entry is
    absent (\<open>None\<close>) or a string;
  \<^item> \<open>add_peer\<close>: what \<^verbatim>\<open>admin.add_peer(enode)\<close> on the node at an RPC port does;
  \<^item> \<open>clock\<close>: the value of \<^verbatim>\<open>int(time.time())\<close> at the \<open>k\<close>-th reading of the run.
  \<open>GETH_COMMAND\<close>, \<open>BASE_DIR\<close> and \<open>NETWORK_ID\<close> are the module's configuration, read
  from the process environment at import. File-system calls and process creation are
  taken not to raise.
\<close>

record completed_process =
  returncode :: int
  stdout :: string
  stderr :: string

datatype rpc_reply = RpcRaises | RpcInfo "string option"

datatype peer_reply = PeerRaises | PeerReturns bool

record env =
  GETH_COMMAND :: string
  BASE_DIR :: string
  NETWORK_ID :: int
  shell :: "string \<Rightarrow> completed_process"
  popen_out :: "string \<Rightarrow> string \<Rightarrow> string"
  node_info :: "int \<Rightarrow> nat \<Rightarrow> rpc_reply"
  add_peer :: "int \<Rightarrow> string \<Rightarrow> peer_reply"
  clock :: "nat \<Rightarrow> int"

definition NODES_DIR :: "env \<Rightarrow> string" where
  "NODES_DIR E = path_join (BASE_DIR E) ''geth_nodes''"

definition OUT_DIR :: "env \<Rightarrow> string" where
  "OUT_DIR E = path_join (BASE_DIR E) ''out''"

text \<open>The exceptions that the provisioner raises.\<close>

datatype exn = RuntimeError string | IndexError

text \<open>The record written at the end of a run, and the value the run returns.\<close>

record cluster_meta =
  timestamp :: int
  num_nodes :: int
  signers :: "string list"
  genesis :: string
  pids :: "string list"

record provisioned =
  meta :: cluster_meta
  meta_path :: string

text \<open>
  What a run does to its surroundings, in order. A \<open>Print\<close> carries the arguments of the
  console line, not its text; a \<open>WriteFile\<close> is a file opened with mode \<^verbatim>\<open>"w"\<close>
  (created or truncated) and the content written to it, a JSON document standing for the
  object it serialises.
\<close>

datatype log_line =
    LogCmd string
  | LogAccount int string
  | LogSigners "string list"
  | LogGenesis string
  | LogInitStderr string
  | LogStart int string string
  | LogBootEnode string
  | LogAddPeerError
  | LogAddPeer int bool

datatype file_content = Text string | GenesisJson genesis_obj | ClusterJson cluster_meta

datatype event =
    Print log_line
  | MakeDirs string
  | WriteFile string file_content
  | Run string
  | Popen string string
  | Sleep nat
  | NodeInfoCall int
  | AddPeerCall int string

section \<open>The provisioner\<close>

text \<open>
  Every function returns the events it caused together with its value; a function that
  can raise returns \<open>Inl\<close> of the exception.
\<close>

definition run :: "env \<Rightarrow> string \<Rightarrow> event list \<times> completed_process" where
  "run E cmd = ([Print (LogCmd cmd), Run cmd], shell E cmd)"

definition create_password_file :: "string \<Rightarrow> event list \<times> string" where
  "create_password_file node_dir =
     (let pwfile = path_join node_dir ''pw.txt''
      in ([WriteFile pwfile (Text (''password'' @ [CHR 0x0A]))], pwfile))"

definition create_account :: "env \<Rightarrow> string \<Rightarrow> event list \<times> (exn + string)" where
  "create_account E node_dir =
     (let (ev1, pw) = create_password_file node_dir;
          cmd = GETH_COMMAND E @ '' --datadir '' @ node_dir @ '' account new --password '' @ pw;
          (ev2, cp) = run E cmd;
          out = strip (stdout cp) @ strip (stderr cp)
      in (ev1 @ ev2,
          case parse_address (splitlines out) of
            None \<Rightarrow> Inl (RuntimeError (''Could not create account: output='' @ out))
          | Some addr \<Rightarrow> Inr addr))"

fun init_nodes_loop ::
  "env \<Rightarrow> int list \<Rightarrow> string list \<Rightarrow> string list \<Rightarrow> event list \<times> (exn + string list \<times> string list)"
where
  "init_nodes_loop E [] node_paths signer_addresses = ([], Inr (node_paths, signer_addresses))"
| "init_nodes_loop E (i # rest) node_paths signer_addresses =
     (let node_dir = path_join (NODES_DIR E) (''node'' @ str_int i);
          datadir = path_join node_dir ''data''
      in case create_account E datadir of
           (ev, Inl e) \<Rightarrow> (MakeDirs datadir # ev, Inl e)
         | (ev, Inr addr) \<Rightarrow>
             (case init_nodes_loop E rest (node_paths @ [node_dir]) (signer_addresses @ [addr]) of
                (ev', r) \<Rightarrow> (MakeDirs datadir # ev @ [Print (LogAccount i addr)] @ ev', r)))"

definition init_nodes ::
  "env \<Rightarrow> int \<Rightarrow> int \<Rightarrow> event list \<times> (exn + string list \<times> string list)"
where
  "init_nodes E n chain_id = init_nodes_loop E [1..n] [] []"

definition write_genesis :: "genesis_obj \<Rightarrow> string \<Rightarrow> event list" where
  "write_genesis genesis_ob dest_path =
     [WriteFile dest_path (GenesisJson genesis_ob), Print (LogGenesis dest_path)]"

definition init_geth_datadir :: "env \<Rightarrow> string \<Rightarrow> string \<Rightarrow> event list \<times> (exn + unit)" where
  "init_geth_datadir E node_dir genesis_path =
     (let datadir = path_join node_dir ''data'';
          cmd = GETH_COMMAND E @ '' --datadir '' @ datadir @ '' init '' @ genesis_path;
          (ev, cp) = run E cmd
      in if returncode cp \<noteq> 0
         then (ev @ [Print (LogInitStderr (stderr cp))],
               Inl (RuntimeError (''geth init failed for '' @ node_dir)))
         else (ev, Inr ()))"

definition start_geth_node :: "env \<Rightarrow> string \<Rightarrow> int \<Rightarrow> string \<Rightarrow> event list \<times> string" where
  "start_geth_node E node_dir idx unlock_addr =
     (let datadir = path_join node_dir ''data'';
          http_port = get_node_http_port idx;
          p2p_port = get_node_p2p_port idx;
          pwfile = path_join datadir ''pw.txt'';
          logfile = path_join node_dir (''geth_'' @ str_int idx @ ''.log'');
          cmd = GETH_COMMAND E @ '' --datadir '' @ datadir @ '' ''
                @ ''--networkid '' @ str_int (NETWORK_ID E) @ '' ''
                @ ''--http --http.addr 127.0.0.1 --http.port '' @ str_int http_port
                @ '' --http.api eth,net,web3,personal,admin ''
                @ ''--port '' @ str_int p2p_port @ '' ''
                @ ''--allow-insecure-unlock --unlock '' @ unlock_addr
                @ '' --password '' @ pwfile @ '' --mine --miner.threads=1 ''
                @ ''> '' @ logfile @ '' 2>&1 & echo $!'';
          pid = strip (popen_out E cmd node_dir)
      in ([Popen cmd node_dir, Print (LogStart idx pid logfile)], pid))"

text \<open>
  The polling loop of \<^verbatim>\<open>get_enode_via_rpc\<close>. \<open>attempts\<close> is the loop's counter and
  \<open>calls\<close> the number of calls made so far; the result is \<open>None\<close> when the loop runs
  forever.
\<close>

partial_function (option) enode_loop ::
  "(nat \<Rightarrow> rpc_reply) \<Rightarrow> int \<Rightarrow> nat \<Rightarrow> nat \<Rightarrow> event list \<Rightarrow> (event list \<times> (exn + string)) option"
where
  "enode_loop reply http_port attempts calls ev =
     (if attempts < 10
      then (case reply calls of
              RpcRaises \<Rightarrow>
                enode_loop reply http_port (attempts + 1) (calls + 1)
                  (ev @ [NodeInfoCall http_port, Sleep 1])
            | RpcInfo enode \<Rightarrow>
                (case enode of
                   None \<Rightarrow> enode_loop reply http_port attempts (calls + 1) (ev @ [NodeInfoCall http_port])
                 | Some s \<Rightarrow>
                     if s = [] then enode_loop reply http_port attempts (calls + 1) (ev @ [NodeInfoCall http_port])
                     else Some (ev @ [NodeInfoCall http_port], Inr s)))
      else Some (ev, Inl (RuntimeError (''Could not get enode from node at http port '' @ str_int http_port))))"

definition get_enode_via_rpc :: "env \<Rightarrow> int \<Rightarrow> (event list \<times> (exn + string)) option" where
  "get_enode_via_rpc E http_port = enode_loop (node_info E http_port) http_port 0 0 []"

definition add_peer_via_rpc :: "env \<Rightarrow> int \<Rightarrow> string \<Rightarrow> event list \<times> bool" where
  "add_peer_via_rpc E http_port enode =
     (case add_peer E http_port enode of
        PeerReturns ok \<Rightarrow> ([AddPeerCall http_port enode], ok)
      | PeerRaises \<Rightarrow> ([AddPeerCall http_port enode, Print LogAddPeerError], False))"

text \<open>
  \<^verbatim>\<open>provision_cluster(num_nodes, chain_id)\<close>, in the six steps of the source. Its loops are
  the three functions that follow; the run itself is \<open>None\<close> when discovery never
  returns, and otherwise its events with the exception raised or the value returned.
\<close>

text \<open>Step 3 of \<^verbatim>\<open>provision_cluster\<close>: the loop over the node directories.\<close>

fun init_all :: "env \<Rightarrow> string list \<Rightarrow> string \<Rightarrow> event list \<times> (exn + unit)" where
  "init_all E [] genesis_path = ([], Inr ())"
| "init_all E (node_dir # rest) genesis_path =
     (case init_geth_datadir E node_dir genesis_path of
        (ev, Inl e) \<Rightarrow> (ev, Inl e)
      | (ev, Inr u) \<Rightarrow> (case init_all E rest genesis_path of (ev', r) \<Rightarrow> (ev @ ev', r)))"

text \<open>Step 4: the loop that starts the nodes.\<close>

fun start_all ::
  "env \<Rightarrow> (int \<times> string) list \<Rightarrow> string list \<Rightarrow> string list \<Rightarrow> event list \<times> (exn + string list)"
where
  "start_all E [] signer_addrs pid_list = ([], Inr pid_list)"
| "start_all E ((idx, node_dir) # rest) signer_addrs pid_list =
     (case py_index signer_addrs (idx - 1) of
        None \<Rightarrow> ([], Inl IndexError)
      | Some unlock_addr \<Rightarrow>
          (case start_geth_node E node_dir idx unlock_addr of
             (ev, pid) \<Rightarrow>
               (case start_all E rest signer_addrs (pid_list @ [pid]) of
                  (ev', r) \<Rightarrow> (ev @ [Sleep 2] @ ev', r))))"

text \<open>Step 5, second half: the loop that adds the bootstrap node to the other nodes.\<close>

fun add_peers :: "env \<Rightarrow> int list \<Rightarrow> string \<Rightarrow> event list" where
  "add_peers E [] enode = []"
| "add_peers E (idx # rest) enode =
     (case add_peer_via_rpc E (get_node_http_port idx) enode of
        (ev, ok) \<Rightarrow> ev @ [Print (LogAddPeer idx ok)] @ add_peers E rest enode)"

definition provision_cluster ::
  "env \<Rightarrow> int \<Rightarrow> int \<Rightarrow> (event list \<times> (exn + provisioned)) option"
where
  "provision_cluster E n chain_id =
     (case init_nodes E n chain_id of
        (ev1, Inl e) \<Rightarrow> Some (ev1, Inl e)
      | (ev1, Inr (node_paths, signer_addrs)) \<Rightarrow>
          (let genesis_ob = build_clique_genesis chain_id signer_addrs default_gas_limit;
               genesis_path = path_join (OUT_DIR E) (''genesis_'' @ str_int (clock E 0) @ ''.json'');
               ev2 = Print (LogSigners signer_addrs) # write_genesis genesis_ob genesis_path
           in case init_all E node_paths genesis_path of
                (ev3, Inl e) \<Rightarrow> Some (ev1 @ ev2 @ ev3, Inl e)
              | (ev3, Inr u) \<Rightarrow>
                  (case start_all E (enumerate1 node_paths) signer_addrs [] of
                     (ev4, Inl e) \<Rightarrow> Some (ev1 @ ev2 @ ev3 @ ev4, Inl e)
                   | (ev4, Inr pid_list) \<Rightarrow>
                       (case get_enode_via_rpc E (get_node_http_port 1) of
                          None \<Rightarrow> None
                        | Some (ev5, Inl e) \<Rightarrow> Some (ev1 @ ev2 @ ev3 @ ev4 @ ev5, Inl e)
                        | Some (ev5, Inr enode) \<Rightarrow>
                            (let ev6 = Print (LogBootEnode enode) # add_peers E [2..n] enode;
                                 cm = \<lparr> timestamp = clock E 1,
                                        num_nodes = n,
                                        signers = signer_addrs,
                                        genesis = genesis_path,
                                        pids = pid_list \<rparr>;
                                 mp = path_join (OUT_DIR E) (''cluster_'' @ str_int (clock E 2) @ ''.json'')
                             in Some (ev1 @ ev2 @ ev3 @ ev4 @ ev5 @ ev6 @ [WriteFile mp (ClusterJson cm)],
                                      Inr \<lparr> meta = cm, meta_path = mp \<rparr>))))))"

text \<open>
  The file system after a sequence of events: a \<open>WriteFile\<close> replaces what the path held.
\<close>

fun apply_event :: "(string \<rightharpoonup> file_content) \<Rightarrow> event \<Rightarrow> (string \<rightharpoonup> file_content)" where
  "apply_event fs (WriteFile p c) = fs(p \<mapsto> c)"
| "apply_event fs ev = fs"

definition files_after :: "event list \<Rightarrow> (string \<rightharpoonup> file_content) \<Rightarrow> (string \<rightharpoonup> file_content)" where
  "files_after evs fs = foldl apply_event fs evs"

text \<open>Classifying events.\<close>

fun is_start :: "event \<Rightarrow> bool" where
  "is_start (Popen cmd cwd) = True"
| "is_start ev = False"

fun is_add_peer :: "event \<Rightarrow> bool" where
  "is_add_peer (AddPeerCall p e) = True"
| "is_add_peer ev = False"

fun is_record_write :: "event \<Rightarrow> bool" where
  "is_record_write (WriteFile p (ClusterJson c)) = True"
| "is_record_write ev = False"

fun is_genesis_write :: "event \<Rightarrow> bool" where
  "is_genesis_write (WriteFile p (GenesisJson g)) = True"
| "is_genesis_write ev = False"

fun is_node_info :: "event \<Rightarrow> bool" where
  "is_node_info (NodeInfoCall p) = True"
| "is_node_info ev = False"

fun is_peer_outcome :: "event \<Rightarrow> bool" where
  "is_peer_outcome (Print (LogAddPeer i ok)) = True"
| "is_peer_outcome ev = False"

text \<open>
  The events that none of the classifications above accepts: console lines other than a
  peering outcome, directory creation, a text file written, a command run to completion,
  a pause.
\<close>

fun plain :: "event \<Rightarrow> bool" where
  "plain (Print (LogAddPeer i ok)) = False"
| "plain (Print l) = True"
| "plain (MakeDirs d) = True"
| "plain (WriteFile p (Text t)) = True"
| "plain (Run c) = True"
| "plain (Sleep s) = True"
| "plain ev = False"

fun is_write :: "event \<Rightarrow> bool" where
  "is_write (WriteFile p c) = True"
| "is_write ev = False"

section \<open>Notions used in the statements\<close>

text \<open>The directory of node \<open>i\<close>, as \<^verbatim>\<open>init_nodes\<close> computes it.\<close>

definition node_dir_of :: "env \<Rightarrow> int \<Rightarrow> string" where
  "node_dir_of E i = path_join (NODES_DIR E) (''node'' @ str_int i)"

text \<open>The path of the genesis file of a run, as \<^verbatim>\<open>provision_cluster\<close> computes it.\<close>

definition genesis_path_of :: "env \<Rightarrow> string" where
  "genesis_path_of E = path_join (OUT_DIR E) (''genesis_'' @ str_int (clock E 0) @ ''.json'')"

text \<open>The events of a run that returned or raised, and the value of a run that returned.\<close>

definition run_events :: "(event list \<times> 'a) option \<Rightarrow> event list" where
  "run_events r = (case r of None \<Rightarrow> [] | Some (tr, x) \<Rightarrow> tr)"

definition run_value :: "(event list \<times> (exn + 'a)) option \<Rightarrow> 'a option" where
  "run_value r = (case r of Some (tr, Inr x) \<Rightarrow> Some x | _ \<Rightarrow> None)"

section \<open>Sample surroundings\<close>

definition addr_a :: string where
  "addr_a = ''0x00000000000000000000000000000000000000a1''"

definition addr_b :: string where
  "addr_b = ''0x0000000000000000000000000000000000C0FFEE''"

definition report :: "string \<Rightarrow> completed_process" where
  "report a = \<lparr> returncode = 0, stdout = ''Address: '' @ a @ [CHR 0x0A], stderr = [] \<rparr>"

text \<open>
  Two nodes whose account creation reports different addresses, every command succeeds,
  the bootstrap node answers the tenth \<^verbatim>\<open>node_info\<close> call after nine that raise, and the
  peer-add call on the node at port 8546 raises.
\<close>

definition env_ok :: env where
  "env_ok =
     \<lparr> GETH_COMMAND = ''geth'',
       BASE_DIR = ''/w'',
       NETWORK_ID = 1515,
       shell = (\<lambda>cmd. if cmd = ''geth --datadir /w/geth_nodes/node1/data account new --password /w/geth_nodes/node1/data/pw.txt''
                       then report addr_a else report addr_b),
       popen_out = (\<lambda>cmd cwd. ''4242'' @ [CHR 0x0A]),
       node_info = (\<lambda>port k. if k < 9 then RpcRaises else RpcInfo (Some ''enode://ab@127.0.0.1:30303'')),
       add_peer = (\<lambda>port enode. if port = 8546 then PeerRaises else PeerReturns True),
       clock = (\<lambda>k. 100 + int k) \<rparr>"

text \<open>Every account creation reports the same address.\<close>

definition env_dup :: env where
  "env_dup = env_ok \<lparr> shell := (\<lambda>cmd. report addr_a) \<rparr>"

text \<open>The init command of node 2 exits with status 1.\<close>

definition env_init_fail :: env where
  "env_init_fail =
     env_ok \<lparr> shell := (\<lambda>cmd. if cmd = ''geth --datadir /w/geth_nodes/node2/data init /w/out/genesis_100.json''
                               then \<lparr> returncode = 1, stdout = [], stderr = ''Fatal'' \<rparr>
                               else shell env_ok cmd) \<rparr>"

text \<open>Every \<^verbatim>\<open>node_info\<close> call raises.\<close>

definition env_no_boot :: env where
  "env_no_boot = env_ok \<lparr> node_info := (\<lambda>port k. RpcRaises) \<rparr>"

text \<open>Every \<^verbatim>\<open>node_info\<close> call returns a record without an \<^verbatim>\<open>enode\<close> entry.\<close>

definition env_no_enode :: env where
  "env_no_enode = env_ok \<lparr> node_info := (\<lambda>port k. RpcInfo None) \<rparr>"

text \<open>
  A process already listens on port 8545 and answers the first \<^verbatim>\<open>node_info\<close> call; the
  clock reads the same second throughout.
\<close>

definition env_same_second :: env where
  "env_same_second =
     env_ok \<lparr> node_info := (\<lambda>port k. RpcInfo (Some ''enode://ab@127.0.0.1:30303'')),
              clock := (\<lambda>k. 100) \<rparr>"

text \<open>Every command fails and reports no address.\<close>

definition env_no_account :: env where
  "env_no_account =
     env_ok \<lparr> shell := (\<lambda>cmd. \<lparr> returncode = 1, stdout = [], stderr = ''Fatal: no key'' \<rparr>) \<rparr>"

text \<open>As \<open>env_same_second\<close>, a hundred seconds later.\<close>

definition env_later :: env where
  "env_later = env_same_second \<lparr> clock := (\<lambda>k. 200) \<rparr>"

section \<open>The genesis builder\<close>

lemma zeros_hex_replicate: "zeros_hex n = replicate (2 * n) (CHR ''0'')"
  by (induction n) (simp_all add: zeros_hex_def)

lemma hex_val_zero: "hex_val (CHR ''0'') = Some 0"
  by (simp add: hex_val_def)

lemma decode_hex_zeros: "decode_hex (replicate (2 * n) (CHR ''0'')) = Some (replicate n 0)"
  by (induction n) (simp_all add: hex_val_zero)

lemma decode_hex_append:
  "decode_hex xs = Some bx \<Longrightarrow>
   decode_hex (xs @ ys) = (case decode_hex ys of Some b \<Rightarrow> Some (bx @ b) | None \<Rightarrow> None)"
  by (induction xs arbitrary: bx rule: decode_hex.induct)
     (auto split: option.splits)

lemma decode_hex_total:
  "list_all is_hex h \<Longrightarrow> even (length h) \<Longrightarrow>
   \<exists>bs. decode_hex h = Some bs \<and> 2 * length bs = length h"
  by (induction h rule: decode_hex.induct) (auto simp: is_hex_def)

lemma replace_0x_id: "CHR ''x'' \<notin> set s \<Longrightarrow> replace_0x s = s"
  by (induction s rule: replace_0x.induct) auto

lemma is_hex_cases: "is_hex c \<Longrightarrow> c \<in> set ''0123456789abcdefABCDEF''"
  by (simp add: is_hex_def hex_val_def split: if_splits)

lemma hex_lower_char:
  "is_hex c \<Longrightarrow> hex_val (lower_char c) = hex_val c \<and> lower_char c \<noteq> CHR ''x''"
  by (drule is_hex_cases) (auto simp add: hex_val_def lower_char_def)

lemma lower_hex_no_x: "list_all is_hex h \<Longrightarrow> CHR ''x'' \<notin> set (lower h)"
proof (induction h)
  case Nil
  show ?case by (simp add: lower_def)
next
  case (Cons c h)
  then have "lower_char c \<noteq> CHR ''x''" "CHR ''x'' \<notin> set (lower h)"
    by (simp_all add: hex_lower_char)
  then show ?case by (auto simp: lower_def)
qed

lemma decode_hex_lower: "list_all is_hex h \<Longrightarrow> decode_hex (lower h) = decode_hex h"
  by (induction h rule: decode_hex.induct) (auto simp: lower_def hex_lower_char)

lemma lower_append: "lower (xs @ ys) = lower xs @ lower ys"
  by (simp add: lower_def)

lemma lower_0x: "lower ''0x'' = ''0x''"
  by (simp add: lower_def lower_char_def)

lemma valid_address_hex:
  assumes "valid_address a"
  shows "\<exists>b. address_bytes a = Some b \<and> length b = 20 \<and> decode_hex (replace_0x (lower a)) = Some b"
proof -
  define h where "h = drop 2 a"
  from assms have pre: "take 2 a = ''0x''" and len: "length a = 42" and hx: "list_all is_hex h"
    by (simp_all add: valid_address_def h_def)
  have a: "a = ''0x'' @ h"
    using pre append_take_drop_id [of 2 a] by (simp add: h_def)
  have lh: "length h = 40" using len by (simp add: h_def)
  from decode_hex_total [OF hx] lh obtain b where b: "decode_hex h = Some b" "length b = 20"
    by auto
  have "lower a = ''0x'' @ lower h"
    by (subst a) (simp only: lower_append lower_0x)
  then have "replace_0x (lower a) = lower h"
    using replace_0x_id [OF lower_hex_no_x [OF hx]] by simp
  then have "decode_hex (replace_0x (lower a)) = Some b"
    using decode_hex_lower [OF hx] b by simp
  moreover have "address_bytes a = Some b"
    using pre b by (simp add: address_bytes_def h_def)
  ultimately show ?thesis using b by blast
qed

lemma signers_hex_decode:
  "list_all valid_address addrs \<Longrightarrow>
   \<exists>bs. map address_bytes addrs = map Some bs \<and> list_all (\<lambda>b. length b = 20) bs \<and>
        decode_hex (concat (map (\<lambda>addr. replace_0x (lower addr)) addrs)) = Some (concat bs)"
proof (induction addrs)
  case Nil
  then show ?case by simp
next
  case (Cons a addrs)
  then obtain bs where bs: "map address_bytes addrs = map Some bs"
      "list_all (\<lambda>b. length b = 20) bs"
      "decode_hex (concat (map (\<lambda>addr. replace_0x (lower addr)) addrs)) = Some (concat bs)"
    by auto
  from Cons.prems valid_address_hex [of a] obtain b where b: "address_bytes a = Some b"
      "length b = 20" "decode_hex (replace_0x (lower a)) = Some b"
    by auto
  have "decode_hex (concat (map (\<lambda>addr. replace_0x (lower addr)) (a # addrs))) = Some (concat (b # bs))"
    using decode_hex_append [OF b(3)] bs(3) by simp
  with b bs show ?case
    by (intro exI [of _ "b # bs"]) simp
qed

lemma length_concat_20:
  "list_all (\<lambda>b. length b = 20) bs \<Longrightarrow> length (concat bs) = 20 * length bs"
  by (induction bs) auto

lemma lower_char_idem: "lower_char (lower_char c) = lower_char c"
  by (simp add: lower_char_def split: if_splits)

lemma lower_idem: "lower (lower s) = lower s"
  by (simp add: lower_def lower_char_idem)

text \<open>
  Claim C1. For every list of authority addresses, each the rendering of 20 bytes, the
  \<open>extraData\<close> field of the genesis descriptor is \<^verbatim>\<open>0x\<close> followed by hexadecimal text
  that decodes to 32 zero bytes, then the 20 bytes of each address in the order the
  addresses were supplied, then 65 zero bytes: \<open>32 + 20 * N + 65\<close> bytes in all.
\<close>

theorem extraData_layout:
  assumes "list_all valid_address addrs"
  shows "\<exists>h bs. extraData (build_clique_genesis chain_id addrs gas_limit) = ''0x'' @ h \<and>
           map address_bytes addrs = map Some bs \<and>
           list_all (\<lambda>b. length b = 20) bs \<and>
           decode_hex h = Some (replicate 32 0 @ concat bs @ replicate 65 0) \<and>
           length (replicate 32 (0 :: 8 word) @ concat bs @ replicate 65 0) = 32 + 20 * length addrs + 65"
proof -
  from signers_hex_decode [OF assms] obtain bs where bs: "map address_bytes addrs = map Some bs"
      "list_all (\<lambda>b. length b = 20) bs"
      "decode_hex (concat (map (\<lambda>addr. replace_0x (lower addr)) addrs)) = Some (concat bs)"
    by blast
  let ?sig = "concat (map (\<lambda>addr. replace_0x (lower addr)) addrs)"
  let ?h = "zeros_hex 32 @ ?sig @ zeros_hex 65"
  have e: "extraData (build_clique_genesis chain_id addrs gas_limit) = ''0x'' @ ?h"
    by (simp add: build_clique_genesis_def Let_def)
  have z1: "decode_hex (zeros_hex 32) = Some (replicate 32 0)"
    by (simp only: zeros_hex_replicate decode_hex_zeros)
  have z2: "decode_hex (zeros_hex 65) = Some (replicate 65 0)"
    by (simp only: zeros_hex_replicate decode_hex_zeros)
  have "decode_hex (?sig @ zeros_hex 65) = Some (concat bs @ replicate 65 0)"
    using decode_hex_append [OF bs(3), of "zeros_hex 65"] z2 by simp
  then have d: "decode_hex ?h = Some (replicate 32 0 @ concat bs @ replicate 65 0)"
    using decode_hex_append [OF z1, of "?sig @ zeros_hex 65"] by simp
  have "length bs = length addrs"
    using bs(1) by (metis length_map)
  then have l: "length (replicate 32 (0 :: 8 word) @ concat bs @ replicate 65 0) = 32 + 20 * length addrs + 65"
    using length_concat_20 [OF bs(2)] by simp
  from e bs(1,2) d l show ?thesis by blast
qed

theorem extraData_layout_witness:
  "list_all valid_address [addr_a, addr_b] \<and>
   (\<exists>h bs. extraData (build_clique_genesis 1515 [addr_a, addr_b] default_gas_limit) = ''0x'' @ h \<and>
           map address_bytes [addr_a, addr_b] = map Some bs \<and>
           list_all (\<lambda>b. length b = 20) bs \<and>
           decode_hex h = Some (replicate 32 0 @ concat bs @ replicate 65 0) \<and>
           length (replicate 32 (0 :: 8 word) @ concat bs @ replicate 65 0) = 32 + 20 * length [addr_a, addr_b] + 65)"
proof -
  have v: "list_all valid_address [addr_a, addr_b]"
    by (simp add: valid_address_def addr_a_def addr_b_def is_hex_def hex_val_def)
  show ?thesis
    by (rule conjI [OF v extraData_layout [OF v, of 1515 default_gas_limit]])
qed

text \<open>
  Claim C9. Genesis construction does not depend on the case of the addresses: for every
  chain identifier and list of addresses, the descriptor built from the lower-cased
  addresses is the descriptor built from the addresses as given.
\<close>

theorem genesis_case_insensitive:
  "build_clique_genesis chain_id (map lower addrs) gas_limit = build_clique_genesis chain_id addrs gas_limit"
  by (simp add: build_clique_genesis_def lower_idem comp_def)

section \<open>Port assignment is injective\<close>

lemma inj_ports: "inj get_node_p2p_port" "inj get_node_http_port"
  by (simp_all add: inj_def get_node_p2p_port_def get_node_http_port_def)

lemma card_inj_upto: "inj (f :: int \<Rightarrow> int) \<Longrightarrow> card (f ` {1..N}) = nat N"
proof -
  assume "inj f"
  then have "inj_on f {1..N}" by (rule inj_on_subset) simp
  then have "card (f ` {1..N}) = card {1..N}" by (rule card_image)
  then show ?thesis by simp
qed

lemma distinct_inj_upto: "inj (f :: int \<Rightarrow> int) \<Longrightarrow> distinct (map f [1..N])"
proof -
  assume "inj f"
  then have "inj_on f (set [1..N])" by (rule inj_on_subset) simp
  then show ?thesis by (simp add: distinct_map)
qed

text \<open>
  Claim C7. The network port of node \<open>i\<close> is \<open>P2P_BASE + (i - 1)\<close> and its RPC port is
  \<open>HTTP_BASE + (i - 1)\<close>; over the node indices \<open>1..N\<close> the network ports are pairwise
  different and so are the RPC ports, so each set of ports has exactly \<open>N\<close> elements.
\<close>

theorem port_assignment:
  "get_node_p2p_port i = P2P_BASE + (i - 1) \<and>
   get_node_http_port i = HTTP_BASE + (i - 1) \<and>
   distinct (map get_node_p2p_port [1..N]) \<and>
   distinct (map get_node_http_port [1..N]) \<and>
   card (get_node_p2p_port ` {1..N}) = nat N \<and>
   card (get_node_http_port ` {1..N}) = nat N"
  using card_inj_upto [OF inj_ports(1), of N] card_inj_upto [OF inj_ports(2), of N]
    distinct_inj_upto [OF inj_ports(1), of N] distinct_inj_upto [OF inj_ports(2), of N]
  by (simp only: get_node_p2p_port_def get_node_http_port_def simp_thms)

section \<open>The events of each phase\<close>

lemma plain_not:
  "plain ev \<Longrightarrow> \<not> is_start ev \<and> \<not> is_add_peer ev \<and> \<not> is_record_write ev \<and>
     \<not> is_genesis_write ev \<and> \<not> is_node_info ev \<and> \<not> is_peer_outcome ev"
  by (induction ev rule: plain.induct) simp_all

lemma filter_plain:
  assumes "list_all plain evs"
  shows "filter is_start evs = []" "filter is_add_peer evs = []" "filter is_record_write evs = []"
    "filter is_genesis_write evs = []" "filter is_node_info evs = []" "filter is_peer_outcome evs = []"
  using assms plain_not by (auto simp: filter_empty_conv list_all_iff)

lemma create_account_plain: "list_all plain (fst (create_account E d))"
  by (simp add: create_account_def create_password_file_def run_def Let_def)

lemma init_nodes_loop_plain: "list_all plain (fst (init_nodes_loop E ns ps as))"
proof (induction ns arbitrary: ps as)
  case Nil
  show ?case by simp
next
  case (Cons i ns)
  show ?case
    using Cons.IH create_account_plain [of E "path_join (path_join (NODES_DIR E) (''node'' @ str_int i)) ''data''"]
    by (simp add: Let_def split: prod.splits sum.splits) (metis fst_conv)
qed

lemma init_nodes_plain: "list_all plain (fst (init_nodes E n c))"
  by (simp add: init_nodes_def init_nodes_loop_plain)

lemma init_geth_datadir_plain: "list_all plain (fst (init_geth_datadir E d gp))"
  by (simp add: init_geth_datadir_def run_def Let_def)

lemma init_geth_datadir_result:
  "snd (init_geth_datadir E d gp) =
     (if returncode (shell E (GETH_COMMAND E @ '' --datadir '' @ path_join d ''data'' @ '' init '' @ gp)) \<noteq> 0
      then Inl (RuntimeError (''geth init failed for '' @ d)) else Inr ())"
  by (simp add: init_geth_datadir_def run_def Let_def)

lemma init_all_plain: "list_all plain (fst (init_all E ds gp))"
proof (induction ds)
  case Nil
  show ?case by simp
next
  case (Cons d ds)
  show ?case
    using Cons.IH init_geth_datadir_plain [of E d gp]
    by (simp split: prod.splits sum.splits) (metis fst_conv)
qed

lemma init_all_fails:
  "d \<in> set ds \<Longrightarrow> snd (init_geth_datadir E d gp) \<noteq> Inr () \<Longrightarrow> \<exists>e. snd (init_all E ds gp) = Inl e"
proof (induction ds)
  case Nil
  then show ?case by simp
next
  case (Cons x ds)
  show ?case
  proof (cases "snd (init_geth_datadir E x gp)")
    case (Inl e)
    then show ?thesis by (auto split: prod.splits sum.splits)
  next
    case (Inr u)
    with Cons.prems have "d \<in> set ds" by auto
    from Cons.IH [OF this Cons.prems(2)] obtain e where "snd (init_all E ds gp) = Inl e" ..
    with Inr show ?thesis by (auto split: prod.splits sum.splits)
  qed
qed

lemma init_all_succeeds:
  "list_all (\<lambda>d. snd (init_geth_datadir E d gp) = Inr ()) ds \<Longrightarrow> snd (init_all E ds gp) = Inr ()"
  by (induction ds) (auto split: prod.splits sum.splits)

lemma start_geth_node_events:
  "list_all (\<lambda>e. plain e \<or> is_start e) (fst (start_geth_node E d i a))"
  by (simp add: start_geth_node_def Let_def)

lemma start_all_ok:
  "list_all (\<lambda>(i, d). 1 \<le> i \<and> i \<le> int (length addrs)) xs \<Longrightarrow>
   \<exists>ev ps. start_all E xs addrs acc = (ev, Inr ps) \<and> list_all (\<lambda>e. plain e \<or> is_start e) ev"
proof (induction xs arbitrary: acc)
  case Nil
  show ?case by simp
next
  case (Cons x xs)
  obtain i d where x: "x = (i, d)" by (cases x)
  with Cons.prems have r: "1 \<le> i" "i \<le> int (length addrs)" and rest: "list_all (\<lambda>(i, d). 1 \<le> i \<and> i \<le> int (length addrs)) xs"
    by auto
  from r obtain a where a: "py_index addrs (i - 1) = Some a"
    by (auto simp: py_index_def Let_def)
  obtain ev pid where s: "start_geth_node E d i a = (ev, pid)" by (cases "start_geth_node E d i a")
  from Cons.IH [OF rest, of "acc @ [pid]"] obtain ev' ps where
    t: "start_all E xs addrs (acc @ [pid]) = (ev', Inr ps)" "list_all (\<lambda>e. plain e \<or> is_start e) ev'"
    by blast
  have "list_all (\<lambda>e. plain e \<or> is_start e) ev"
    using start_geth_node_events [of E d i a] s by simp
  with t a s x show ?case by simp
qed

lemma enumerate1_range:
  "list_all (\<lambda>(i, d). 1 \<le> i \<and> i \<le> int (length xs)) (enumerate1 xs)"
  by (auto simp: enumerate1_def list_all_iff dest: set_zip_leftD)

lemma map_Inr_not_Inl: "map Inr xs \<noteq> ys @ Inl e # zs"
proof
  assume "map Inr xs = ys @ Inl e # zs"
  then have "Inl e \<in> set (map Inr xs)" by simp
  then show False by auto
qed

lemma init_nodes_loop_result:
  "snd (init_nodes_loop E ns ps as) = Inr (paths, addrs) \<longleftrightarrow>
     paths = ps @ map (node_dir_of E) ns \<and>
     map Inr addrs = map Inr as @ map (\<lambda>i. snd (create_account E (path_join (node_dir_of E i) ''data''))) ns"
proof (induction ns arbitrary: ps as)
  case Nil
  show ?case by auto
next
  case (Cons i ns)
  let ?d = "path_join (node_dir_of E i) ''data''"
  obtain ev r where c: "create_account E ?d = (ev, r)" by (cases "create_account E ?d")
  show ?case
  proof (cases r)
    case (Inl e)
    have "snd (init_nodes_loop E (i # ns) ps as) = Inl e"
      using c Inl by (simp add: node_dir_of_def Let_def)
    moreover have "map Inr addrs \<noteq> map Inr as @ Inl e # map (\<lambda>i. snd (create_account E (path_join (node_dir_of E i) ''data''))) ns"
      by (rule map_Inr_not_Inl)
    ultimately show ?thesis using c Inl by simp
  next
    case (Inr a)
    have "snd (init_nodes_loop E (i # ns) ps as) = snd (init_nodes_loop E ns (ps @ [node_dir_of E i]) (as @ [a]))"
      using c Inr by (simp add: node_dir_of_def Let_def split: prod.splits)
    then show ?thesis
      using Cons.IH [of "ps @ [node_dir_of E i]" "as @ [a]"] c Inr by simp
  qed
qed

lemma init_nodes_loop_lengths:
  assumes "snd (init_nodes_loop E ns ps as) = Inr (paths, addrs)" "length ps = length as"
  shows "length paths = length addrs"
proof -
  from assms(1) have p: "paths = ps @ map (node_dir_of E) ns"
    and a: "map Inr addrs = map Inr as @ map (\<lambda>i. snd (create_account E (path_join (node_dir_of E i) ''data''))) ns"
    by (simp_all add: init_nodes_loop_result)
  from a have "length (map Inr addrs :: (exn + string) list) = length as + length ns"
    by simp
  with p assms(2) show ?thesis by simp
qed

lemma init_nodes_lengths:
  "snd (init_nodes E n c) = Inr (paths, addrs) \<Longrightarrow> length paths = length addrs"
  using init_nodes_loop_lengths [of E "[1..n]" "[]" "[]"] by (simp add: init_nodes_def)

lemma enode_loop_extends:
  assumes "enode_loop reply p a c ev = Some y"
  shows "\<exists>sfx. fst y = ev @ sfx \<and> list_all (\<lambda>e. e = NodeInfoCall p \<or> e = Sleep 1) sfx"
proof (rule enode_loop.raw_induct
    [where P = "\<lambda>reply p a c ev y. \<exists>sfx. fst y = ev @ sfx \<and> list_all (\<lambda>e. e = NodeInfoCall p \<or> e = Sleep 1) sfx",
      OF _ assms], goal_cases)
  case (1 f reply http_port attempts calls ev y)
  show ?case
  proof (cases "attempts < 10")
    case False
    with 1(2) show ?thesis by auto
  next
    case True
    show ?thesis
    proof (cases "reply calls")
      case RpcRaises
      with True 1(2) have "f reply http_port (attempts + 1) (calls + 1) (ev @ [NodeInfoCall http_port, Sleep 1]) = Some y"
        by simp
      from 1(1) [OF this] show ?thesis by auto
    next
      case (RpcInfo en)
      show ?thesis
      proof (cases "en = None \<or> en = Some []")
        case True
        with \<open>attempts < 10\<close> RpcInfo 1(2) have "f reply http_port attempts (calls + 1) (ev @ [NodeInfoCall http_port]) = Some y"
          by auto
        from 1(1) [OF this] show ?thesis by auto
      next
        case False
        with \<open>attempts < 10\<close> RpcInfo 1(2) show ?thesis by (auto split: option.splits)
      qed
    qed
  qed
qed

lemma add_peer_via_rpc_fst:
  "fst (add_peer_via_rpc E p enode) = AddPeerCall p enode # (if add_peer E p enode = PeerRaises then [Print LogAddPeerError] else [])"
  by (simp add: add_peer_via_rpc_def split: peer_reply.splits)

lemma add_peer_via_rpc_snd:
  "snd (add_peer_via_rpc E p enode) = (add_peer E p enode = PeerReturns True)"
  by (simp add: add_peer_via_rpc_def split: peer_reply.splits)

lemma add_peers_calls:
  "filter is_add_peer (add_peers E ns enode) = map (\<lambda>i. AddPeerCall (get_node_http_port i) enode) ns"
proof (induction ns)
  case Nil
  show ?case by simp
next
  case (Cons i ns)
  then show ?case
    using add_peer_via_rpc_fst [of E "get_node_http_port i" enode]
    by (auto split: prod.splits)
qed

lemma add_peers_outcomes:
  "filter is_peer_outcome (add_peers E ns enode) =
     map (\<lambda>i. Print (LogAddPeer i (add_peer E (get_node_http_port i) enode = PeerReturns True))) ns"
proof (induction ns)
  case Nil
  show ?case by simp
next
  case (Cons i ns)
  then show ?case
    using add_peer_via_rpc_fst [of E "get_node_http_port i" enode]
      add_peer_via_rpc_snd [of E "get_node_http_port i" enode]
    by (auto split: prod.splits)
qed

lemma add_peers_other:
  "filter is_record_write (add_peers E ns enode) = []"
  "filter is_start (add_peers E ns enode) = []"
  "filter is_write (add_peers E ns enode) = []"
proof (induction ns)
  case Nil
  {
    case 1 show ?case by simp
  next
    case 2 show ?case by simp
  next
    case 3 show ?case by simp
  }
next
  case (Cons i ns)
  {
    case 1 then show ?case
      using Cons(1) add_peer_via_rpc_fst [of E "get_node_http_port i" enode] by (auto split: prod.splits)
  next
    case 2 then show ?case
      using Cons(2) add_peer_via_rpc_fst [of E "get_node_http_port i" enode] by (auto split: prod.splits)
  next
    case 3 then show ?case
      using Cons(3) add_peer_via_rpc_fst [of E "get_node_http_port i" enode] by (auto split: prod.splits)
  }
qed

lemma init_geth_datadir_no_write: "filter is_write (fst (init_geth_datadir E d gp)) = []"
  by (simp add: init_geth_datadir_def run_def Let_def)

lemma init_all_no_write: "filter is_write (fst (init_all E ds gp)) = []"
proof (induction ds)
  case Nil
  show ?case by simp
next
  case (Cons d ds)
  show ?case
    using Cons.IH init_geth_datadir_no_write [of E d gp]
    by (simp split: prod.splits sum.splits) (metis fst_conv)
qed

lemma start_all_no_write: "filter is_write (fst (start_all E xs addrs acc)) = []"
proof (induction xs arbitrary: acc)
  case Nil
  show ?case by simp
next
  case (Cons x xs)
  obtain i d where x: "x = (i, d)" by (cases x)
  show ?case
  proof (cases "py_index addrs (i - 1)")
    case None
    with x show ?thesis by simp
  next
    case (Some a)
    obtain ev pid where s: "start_geth_node E d i a = (ev, pid)" by (cases "start_geth_node E d i a")
    then have "filter is_write ev = []"
      by (auto simp: start_geth_node_def Let_def)
    moreover obtain ev' r' where t: "start_all E xs addrs (acc @ [pid]) = (ev', r')"
      by (cases "start_all E xs addrs (acc @ [pid])")
    moreover have "filter is_write ev' = []"
      using Cons.IH [of "acc @ [pid]"] t by simp
    ultimately show ?thesis using x Some s by simp
  qed
qed

section \<open>The polling loop\<close>

text \<open>Replies that raise \<open>k\<close> times and then carry an address: the loop returns the address.\<close>

lemma enode_loop_retry:
  "(\<And>j. j < k \<Longrightarrow> reply (c + j) = RpcRaises) \<Longrightarrow> reply (c + k) = RpcInfo (Some s) \<Longrightarrow>
   s \<noteq> [] \<Longrightarrow> a + k < 10 \<Longrightarrow>
   enode_loop reply p a c ev =
     Some (ev @ concat (replicate k [NodeInfoCall p, Sleep 1]) @ [NodeInfoCall p], Inr s)"
proof (induction k arbitrary: a c ev)
  case 0
  then show ?case by (subst enode_loop.simps) simp
next
  case (Suc k)
  have r: "reply c = RpcRaises" using Suc.prems(1) [of 0] by simp
  have "enode_loop reply p (a + 1) (c + 1) (ev @ [NodeInfoCall p, Sleep 1]) =
      Some ((ev @ [NodeInfoCall p, Sleep 1]) @ concat (replicate k [NodeInfoCall p, Sleep 1]) @ [NodeInfoCall p], Inr s)"
  proof (rule Suc.IH)
    fix j assume "j < k"
    then show "reply (c + 1 + j) = RpcRaises" using Suc.prems(1) [of "Suc j"] by simp
  next
    show "reply (c + 1 + k) = RpcInfo (Some s)" using Suc.prems(2) by simp
  next
    show "s \<noteq> []" by (rule Suc.prems(3))
  next
    show "a + 1 + k < 10" using Suc.prems(4) by simp
  qed
  moreover have "a < 10" using Suc.prems(4) by simp
  ultimately show ?case using r by (subst enode_loop.simps) simp
qed

text \<open>Replies that always raise: the loop gives up after ten calls.\<close>

lemma enode_loop_exhausted:
  "(\<And>j. reply j = RpcRaises) \<Longrightarrow> a + k = 10 \<Longrightarrow>
   enode_loop reply p a c ev =
     Some (ev @ concat (replicate k [NodeInfoCall p, Sleep 1]),
           Inl (RuntimeError (''Could not get enode from node at http port '' @ str_int p)))"
proof (induction k arbitrary: a c ev)
  case 0
  then show ?case by (subst enode_loop.simps) simp
next
  case (Suc k)
  have "enode_loop reply p (a + 1) (c + 1) (ev @ [NodeInfoCall p, Sleep 1]) =
      Some ((ev @ [NodeInfoCall p, Sleep 1]) @ concat (replicate k [NodeInfoCall p, Sleep 1]),
            Inl (RuntimeError (''Could not get enode from node at http port '' @ str_int p)))"
    using Suc.prems by (intro Suc.IH) simp_all
  moreover have "a < 10" using Suc.prems(2) by simp
  ultimately show ?case using Suc.prems(1) [of c] by (subst enode_loop.simps) simp
qed

text \<open>
  Replies that never lack an address (each raises or carries one): the loop returns, after
  at most ten calls.
\<close>

lemma enode_loop_returns:
  "(\<And>j. reply j = RpcRaises \<or> (\<exists>s. s \<noteq> [] \<and> reply j = RpcInfo (Some s))) \<Longrightarrow> a + k = 10 \<Longrightarrow>
   \<exists>ev' r. enode_loop reply p a c ev = Some (ev @ ev', r) \<and> length (filter is_node_info ev') \<le> k"
proof (induction k arbitrary: a c ev)
  case 0
  then show ?case by (subst enode_loop.simps) simp
next
  case (Suc k)
  have a: "a < 10" using Suc.prems(2) by simp
  show ?case
  proof (cases "reply c = RpcRaises")
    case True
    have "\<exists>ev' r. enode_loop reply p (a + 1) (c + 1) (ev @ [NodeInfoCall p, Sleep 1]) =
        Some ((ev @ [NodeInfoCall p, Sleep 1]) @ ev', r) \<and> length (filter is_node_info ev') \<le> k"
      using Suc.prems by (intro Suc.IH) simp_all
    then obtain ev' r where
      "enode_loop reply p (a + 1) (c + 1) (ev @ [NodeInfoCall p, Sleep 1]) = Some ((ev @ [NodeInfoCall p, Sleep 1]) @ ev', r)"
      "length (filter is_node_info ev') \<le> k" by blast
    then have "enode_loop reply p a c ev = Some (ev @ ([NodeInfoCall p, Sleep 1] @ ev'), r) \<and>
        length (filter is_node_info ([NodeInfoCall p, Sleep 1] @ ev')) \<le> Suc k"
      using a True by (subst enode_loop.simps) simp
    then show ?thesis by blast
  next
    case False
    with Suc.prems(1) [of c] obtain s where "s \<noteq> []" "reply c = RpcInfo (Some s)" by blast
    then have "enode_loop reply p a c ev = Some (ev @ [NodeInfoCall p], Inr s) \<and>
        length (filter is_node_info [NodeInfoCall p]) \<le> Suc k"
      using a by (subst enode_loop.simps) simp
    then show ?thesis by blast
  qed
qed

text \<open>
  Replies that always lack an address (no \<^verbatim>\<open>enode\<close> entry, or an empty one): the counter
  never moves and the loop never returns.
\<close>

lemma enode_loop_diverges:
  assumes "\<And>j. reply j = RpcInfo None \<or> reply j = RpcInfo (Some [])" and "a < 10"
  shows "enode_loop reply p a c ev = None"
proof (rule ccontr)
  assume "enode_loop reply p a c ev \<noteq> None"
  then obtain y where y: "enode_loop reply p a c ev = Some y" by blast
  have "\<not> ((\<forall>j. reply j = RpcInfo None \<or> reply j = RpcInfo (Some [])) \<and> a < 10)"
  proof (rule enode_loop.raw_induct
      [where P = "\<lambda>reply p a c ev y. \<not> ((\<forall>j. reply j = RpcInfo None \<or> reply j = RpcInfo (Some [])) \<and> a < 10)",
        OF _ y], goal_cases)
    case (1 f reply http_port attempts calls ev y)
    show ?case
    proof
      assume h: "(\<forall>j. reply j = RpcInfo None \<or> reply j = RpcInfo (Some [])) \<and> attempts < 10"
      then have "reply calls = RpcInfo None \<or> reply calls = RpcInfo (Some [])" by blast
      moreover have "attempts < 10" using h by blast
      ultimately have "f reply http_port attempts (calls + 1) (ev @ [NodeInfoCall http_port]) = Some y"
        using 1(2) by (elim disjE) simp_all
      from 1(1) [OF this] h show False by blast
    qed
  qed
  with assms show False by blast
qed

lemma get_enode_first_call:
  assumes "get_enode_via_rpc E p = Some (ev, r)"
  shows "\<exists>sfx. ev = NodeInfoCall p # sfx"
proof -
  let ?reply = "node_info E p"
  from assms have e: "enode_loop ?reply p 0 0 [] = Some (ev, r)"
    by (simp add: get_enode_via_rpc_def)
  show ?thesis
  proof (cases "?reply 0")
    case RpcRaises
    with e have "enode_loop ?reply p 1 1 [NodeInfoCall p, Sleep 1] = Some (ev, r)"
      by (subst (asm) enode_loop.simps) simp
    from enode_loop_extends [OF this] show ?thesis by auto
  next
    case (RpcInfo en)
    show ?thesis
    proof (cases "en = None \<or> en = Some []")
      case True
      with e RpcInfo have "enode_loop ?reply p 0 1 [NodeInfoCall p] = Some (ev, r)"
        by (subst (asm) enode_loop.simps) auto
      from enode_loop_extends [OF this] show ?thesis by auto
    next
      case False
      with e RpcInfo show ?thesis
        by (subst (asm) enode_loop.simps) (auto split: option.splits)
    qed
  qed
qed

section \<open>The sample surroundings, evaluated\<close>

lemma upto_small: "[1..0::int] = []" "[1..2::int] = [1, 2]" "[2..2::int] = [2]" "[2..0::int] = []"
  by (simp_all add: upto.simps)

lemmas str_eval = str_int_def dec_digits.simps dec_digit_def path_join_def strip_def is_space_def
  splitlines_def is_linebreak_def is_hex_def hex_val_def

lemmas acct_eval = init_nodes_def upto_small Let_def NODES_DIR_def OUT_DIR_def create_account_def
  create_password_file_def run_def report_def addr_a_def addr_b_def str_eval

lemma init_nodes_env_ok:
  "snd (init_nodes env_ok 2 1515) =
     Inr ([''/w/geth_nodes/node1'', ''/w/geth_nodes/node2''], [addr_a, addr_b])"
  by (simp add: env_ok_def acct_eval)

lemma init_nodes_env_init_fail:
  "snd (init_nodes env_init_fail 2 1515) =
     Inr ([''/w/geth_nodes/node1'', ''/w/geth_nodes/node2''], [addr_a, addr_b])"
  by (simp add: env_init_fail_def env_ok_def acct_eval)

lemma init_nodes_env_dup:
  "snd (init_nodes env_dup 2 1515) =
     Inr ([''/w/geth_nodes/node1'', ''/w/geth_nodes/node2''], [addr_a, addr_a])"
  by (simp add: env_dup_def env_ok_def acct_eval)

lemma genesis_path_samples:
  "genesis_path_of env_ok = ''/w/out/genesis_100.json''"
  "genesis_path_of env_init_fail = ''/w/out/genesis_100.json''"
  "genesis_path_of env_dup = ''/w/out/genesis_100.json''"
  "genesis_path_of env_same_second = ''/w/out/genesis_100.json''"
  by (simp_all add: genesis_path_of_def env_init_fail_def env_dup_def env_same_second_def env_ok_def
        OUT_DIR_def str_eval)

lemma http_port_samples: "get_node_http_port 1 = 8545" "get_node_http_port 2 = 8546"
  by (simp_all add: get_node_http_port_def HTTP_BASE_def)

lemma init_all_env_ok:
  "snd (init_all env_ok [''/w/geth_nodes/node1'', ''/w/geth_nodes/node2''] ''/w/out/genesis_100.json'') = Inr ()"
  by (rule init_all_succeeds)
     (simp add: init_geth_datadir_result env_ok_def report_def path_join_def)

lemma init_all_env_dup:
  "snd (init_all env_dup [''/w/geth_nodes/node1'', ''/w/geth_nodes/node2''] ''/w/out/genesis_100.json'') = Inr ()"
  by (rule init_all_succeeds)
     (simp add: init_geth_datadir_result env_dup_def env_ok_def report_def path_join_def)

lemma get_enode_env_ok:
  "get_enode_via_rpc env_ok 8545 =
     Some (concat (replicate 9 [NodeInfoCall 8545, Sleep 1]) @ [NodeInfoCall 8545],
           Inr ''enode://ab@127.0.0.1:30303'')"
  unfolding get_enode_via_rpc_def
  using enode_loop_retry [of 9 "node_info env_ok 8545" 0 "''enode://ab@127.0.0.1:30303''" 0 8545 "[]"]
  by (simp add: env_ok_def)

lemma get_enode_env_dup:
  "get_enode_via_rpc env_dup 8545 =
     Some (concat (replicate 9 [NodeInfoCall 8545, Sleep 1]) @ [NodeInfoCall 8545],
           Inr ''enode://ab@127.0.0.1:30303'')"
  unfolding get_enode_via_rpc_def
  using enode_loop_retry [of 9 "node_info env_dup 8545" 0 "''enode://ab@127.0.0.1:30303''" 0 8545 "[]"]
  by (simp add: env_dup_def env_ok_def)

lemma get_enode_env_no_boot:
  "get_enode_via_rpc env_no_boot 8545 =
     Some (concat (replicate 10 [NodeInfoCall 8545, Sleep 1]),
           Inl (RuntimeError ''Could not get enode from node at http port 8545''))"
  unfolding get_enode_via_rpc_def
  using enode_loop_exhausted [of "node_info env_no_boot 8545" 0 10 8545 0 "[]"]
  by (simp add: env_no_boot_def env_ok_def str_int_def dec_digits.simps dec_digit_def)

lemma get_enode_env_same_second:
  "get_enode_via_rpc env_same_second 8545 = Some ([NodeInfoCall 8545], Inr ''enode://ab@127.0.0.1:30303'')"
  unfolding get_enode_via_rpc_def
  using enode_loop_retry [of 0 "node_info env_same_second 8545" 0 "''enode://ab@127.0.0.1:30303''" 0 8545 "[]"]
  by (simp add: env_same_second_def env_ok_def)

lemma init_nodes_env_no_account:
  "snd (init_nodes env_no_account 2 1515) = Inl (RuntimeError ''Could not create account: output=Fatal: no key'')"
  by (simp add: env_no_account_def env_ok_def acct_eval)

section \<open>The provisioning run\<close>

lemma start_not_peering:
  "is_start ev \<Longrightarrow> \<not> is_add_peer ev \<and> \<not> is_record_write ev \<and> \<not> is_peer_outcome ev \<and> \<not> is_node_info ev"
  by (cases ev rule: is_start.cases) simp_all

lemma node_info_not_peering:
  "is_node_info ev \<Longrightarrow> \<not> is_add_peer ev \<and> \<not> is_record_write ev \<and> \<not> is_peer_outcome ev \<and> \<not> is_start ev"
  by (cases ev rule: is_node_info.cases) simp_all

lemma filter_start_phase:
  assumes "list_all (\<lambda>e. plain e \<or> is_start e) evs"
  shows "filter is_add_peer evs = []" "filter is_record_write evs = []"
    "filter is_peer_outcome evs = []" "filter is_node_info evs = []"
  using assms plain_not start_not_peering by (auto simp: filter_empty_conv list_all_iff)

lemma filter_poll_phase:
  assumes "list_all (\<lambda>e. plain e \<or> is_node_info e) evs"
  shows "filter is_add_peer evs = []" "filter is_record_write evs = []"
    "filter is_peer_outcome evs = []" "filter is_start evs = []"
  using assms plain_not node_info_not_peering by (auto simp: filter_empty_conv list_all_iff)

lemma write_genesis_filters:
  "filter is_start (write_genesis g p) = []" "filter is_add_peer (write_genesis g p) = []"
  "filter is_record_write (write_genesis g p) = []" "filter is_peer_outcome (write_genesis g p) = []"
  "filter is_node_info (write_genesis g p) = []"
  by (simp_all add: write_genesis_def)

lemma get_enode_events:
  assumes "get_enode_via_rpc E p = Some (ev, r)"
  shows "list_all (\<lambda>e. plain e \<or> is_node_info e) ev"
proof -
  from enode_loop_extends [of "node_info E p" p 0 0 "[]" "(ev, r)"] assms
  have "list_all (\<lambda>e. e = NodeInfoCall p \<or> e = Sleep 1) ev"
    by (simp add: get_enode_via_rpc_def)
  then show ?thesis by (auto simp: list_all_iff)
qed

lemma get_enode_no_write:
  assumes "get_enode_via_rpc E p = Some (ev, r)"
  shows "filter is_write ev = []"
proof -
  from enode_loop_extends [of "node_info E p" p 0 0 "[]" "(ev, r)"] assms
  have "list_all (\<lambda>e. e = NodeInfoCall p \<or> e = Sleep 1) ev"
    by (simp add: get_enode_via_rpc_def)
  then show ?thesis by (auto simp: list_all_iff filter_empty_conv)
qed

lemma start_phase_ok:
  assumes "snd (init_nodes E n c) = Inr (paths, addrs)"
  shows "\<exists>ev ps. start_all E (enumerate1 paths) addrs [] = (ev, Inr ps) \<and>
           list_all (\<lambda>e. plain e \<or> is_start e) ev"
proof -
  have "length paths = length addrs" using assms by (rule init_nodes_lengths)
  with enumerate1_range [of paths]
  have "list_all (\<lambda>(i, d). 1 \<le> i \<and> i \<le> int (length addrs)) (enumerate1 paths)" by simp
  then show ?thesis by (rule start_all_ok)
qed

text \<open>
  Claim C4. If the init command of some node exits with a non-zero status, the run raises
  and its events contain no node start: no node is started, not even one whose init
  succeeded.
\<close>

theorem init_failure_no_start:
  assumes "snd (init_nodes E n c) = Inr (paths, addrs)"
    and "d \<in> set paths"
    and "returncode (shell E (GETH_COMMAND E @ '' --datadir '' @ path_join d ''data'' @ '' init ''
           @ genesis_path_of E)) \<noteq> 0"
  shows "\<exists>tr e. provision_cluster E n c = Some (tr, Inl e) \<and> filter is_start tr = []"
proof -
  obtain ev1 where i: "init_nodes E n c = (ev1, Inr (paths, addrs))"
    using assms(1) by (cases "init_nodes E n c") auto
  have p1: "list_all plain ev1" using init_nodes_plain [of E n c] i by simp
  have "snd (init_geth_datadir E d (genesis_path_of E)) \<noteq> Inr ()"
    using assms(3) by (simp add: init_geth_datadir_result)
  from init_all_fails [OF assms(2) this] obtain e where "snd (init_all E paths (genesis_path_of E)) = Inl e" ..
  then obtain ev3 where a: "init_all E paths (genesis_path_of E) = (ev3, Inl e)"
    by (cases "init_all E paths (genesis_path_of E)") auto
  have p3: "list_all plain ev3" using init_all_plain [of E paths "genesis_path_of E"] a by simp
  let ?ev2 = "Print (LogSigners addrs) # write_genesis (build_clique_genesis c addrs default_gas_limit) (genesis_path_of E)"
  have "provision_cluster E n c = Some (ev1 @ ?ev2 @ ev3, Inl e)"
    using a by (simp add: provision_cluster_def i Let_def genesis_path_of_def)
  moreover have "filter is_start (ev1 @ ?ev2 @ ev3) = []"
    using filter_plain(1) [OF p1] filter_plain(1) [OF p3] by (simp add: write_genesis_filters)
  ultimately show ?thesis by blast
qed

theorem init_failure_no_start_witness:
  "snd (init_nodes env_init_fail 2 1515) =
     Inr ([''/w/geth_nodes/node1'', ''/w/geth_nodes/node2''], [addr_a, addr_b]) \<and>
   returncode (shell env_init_fail ''geth --datadir /w/geth_nodes/node2/data init /w/out/genesis_100.json'') = 1 \<and>
   (\<exists>tr e. provision_cluster env_init_fail 2 1515 = Some (tr, Inl e) \<and> filter is_start tr = [])"
proof -
  have r: "returncode (shell env_init_fail ''geth --datadir /w/geth_nodes/node2/data init /w/out/genesis_100.json'') = 1"
    by (simp add: env_init_fail_def)
  have c: "GETH_COMMAND env_init_fail @ '' --datadir '' @ path_join ''/w/geth_nodes/node2'' ''data'' @ '' init ''
        @ genesis_path_of env_init_fail = ''geth --datadir /w/geth_nodes/node2/data init /w/out/genesis_100.json''"
    by (simp add: genesis_path_samples) (simp add: env_init_fail_def env_ok_def path_join_def)
  have "\<exists>tr e. provision_cluster env_init_fail 2 1515 = Some (tr, Inl e) \<and> filter is_start tr = []"
    by (rule init_failure_no_start [OF init_nodes_env_init_fail, of "''/w/geth_nodes/node2''"])
       (simp_all only: c r, simp_all)
  with init_nodes_env_init_fail r show ?thesis by blast
qed

text \<open>
  Claim C5. If the discovery of the bootstrap node's address exhausts its attempts and
  raises, the run raises, and its events contain no peer-add call and no write of a
  cluster record.
\<close>

theorem discovery_exhausted_no_peering:
  assumes "get_enode_via_rpc E (get_node_http_port 1) = Some (ev5, Inl e)"
  shows "\<exists>tr e'. provision_cluster E n c = Some (tr, Inl e') \<and>
           filter is_add_peer tr = [] \<and> filter is_record_write tr = []"
proof (cases "snd (init_nodes E n c)")
  case (Inl e1)
  then obtain ev1 where i: "init_nodes E n c = (ev1, Inl e1)"
    by (cases "init_nodes E n c") auto
  have p1: "list_all plain ev1" using init_nodes_plain [of E n c] i by simp
  have "provision_cluster E n c = Some (ev1, Inl e1)"
    by (simp add: provision_cluster_def i)
  then show ?thesis using filter_plain [OF p1] by simp
next
  case (Inr pa)
  obtain paths addrs where pa: "pa = (paths, addrs)" by (cases pa)
  with Inr have s: "snd (init_nodes E n c) = Inr (paths, addrs)" by simp
  then obtain ev1 where i: "init_nodes E n c = (ev1, Inr (paths, addrs))"
    by (cases "init_nodes E n c") auto
  have p1: "list_all plain ev1" using init_nodes_plain [of E n c] i by simp
  let ?ev2 = "Print (LogSigners addrs) # write_genesis (build_clique_genesis c addrs default_gas_limit) (genesis_path_of E)"
  obtain ev3 r3 where a: "init_all E paths (genesis_path_of E) = (ev3, r3)"
    by (cases "init_all E paths (genesis_path_of E)")
  have p3: "list_all plain ev3" using init_all_plain [of E paths "genesis_path_of E"] a by simp
  show ?thesis
  proof (cases r3)
    case (Inl e3)
    have "provision_cluster E n c = Some (ev1 @ ?ev2 @ ev3, Inl e3)"
      using a Inl by (simp add: provision_cluster_def i Let_def genesis_path_of_def)
    then show ?thesis
      using filter_plain [OF p1] filter_plain [OF p3] by (simp add: write_genesis_filters)
  next
    case (Inr u)
    from start_phase_ok [OF s] obtain ev4 ps where
      st: "start_all E (enumerate1 paths) addrs [] = (ev4, Inr ps)"
      and p4: "list_all (\<lambda>e. plain e \<or> is_start e) ev4" by blast
    have p5: "list_all (\<lambda>e. plain e \<or> is_node_info e) ev5" using assms by (rule get_enode_events)
    have "provision_cluster E n c = Some (ev1 @ ?ev2 @ ev3 @ ev4 @ ev5, Inl e)"
      using a Inr st assms by (simp add: provision_cluster_def i Let_def genesis_path_of_def)
    then show ?thesis
      using filter_plain [OF p1] filter_plain [OF p3] filter_start_phase [OF p4] filter_poll_phase [OF p5]
      by (simp add: write_genesis_filters)
  qed
qed

theorem discovery_exhausted_no_peering_witness:
  "get_enode_via_rpc env_no_boot (get_node_http_port 1) =
     Some (concat (replicate 10 [NodeInfoCall 8545, Sleep 1]),
           Inl (RuntimeError ''Could not get enode from node at http port 8545'')) \<and>
   (\<exists>tr e'. provision_cluster env_no_boot 2 1515 = Some (tr, Inl e') \<and>
      filter is_add_peer tr = [] \<and> filter is_record_write tr = [])"
proof -
  have g: "get_enode_via_rpc env_no_boot (get_node_http_port 1) =
     Some (concat (replicate 10 [NodeInfoCall 8545, Sleep 1]),
           Inl (RuntimeError ''Could not get enode from node at http port 8545''))"
    by (simp only: http_port_samples get_enode_env_no_boot)
  from g discovery_exhausted_no_peering [OF g, of 2 1515] show ?thesis by (rule conjI)
qed

text \<open>
  Claim C6. When the run reaches peering (accounts created, every init succeeded, the
  bootstrap address discovered), it issues exactly one peer-add call to the RPC port of
  each node \<open>2..N\<close>, in order and with the discovered address; it prints one outcome per
  node, negative when the call raised or returned false; and whatever the outcomes, it
  returns, having written one cluster record.
\<close>

theorem peering_best_effort:
  assumes "snd (init_nodes E n c) = Inr (paths, addrs)"
    and "snd (init_all E paths (genesis_path_of E)) = Inr ()"
    and "get_enode_via_rpc E (get_node_http_port 1) = Some (ev5, Inr enode)"
  shows "\<exists>tr r. provision_cluster E n c = Some (tr, Inr r) \<and>
           filter is_add_peer tr = map (\<lambda>i. AddPeerCall (get_node_http_port i) enode) [2..n] \<and>
           filter is_peer_outcome tr =
             map (\<lambda>i. Print (LogAddPeer i (add_peer E (get_node_http_port i) enode = PeerReturns True))) [2..n] \<and>
           filter is_record_write tr = [WriteFile (meta_path r) (ClusterJson (meta r))] \<and>
           num_nodes (meta r) = n \<and> signers (meta r) = addrs"
proof -
  obtain ev1 where i: "init_nodes E n c = (ev1, Inr (paths, addrs))"
    using assms(1) by (cases "init_nodes E n c") auto
  have p1: "list_all plain ev1" using init_nodes_plain [of E n c] i by simp
  let ?gp = "genesis_path_of E"
  let ?ev2 = "Print (LogSigners addrs) # write_genesis (build_clique_genesis c addrs default_gas_limit) ?gp"
  obtain ev3 where a: "init_all E paths ?gp = (ev3, Inr ())"
    using assms(2) by (cases "init_all E paths ?gp") auto
  have p3: "list_all plain ev3" using init_all_plain [of E paths ?gp] a by simp
  from start_phase_ok [OF assms(1)] obtain ev4 ps where
    st: "start_all E (enumerate1 paths) addrs [] = (ev4, Inr ps)"
    and p4: "list_all (\<lambda>e. plain e \<or> is_start e) ev4" by blast
  have p5: "list_all (\<lambda>e. plain e \<or> is_node_info e) ev5" using assms(3) by (rule get_enode_events)
  let ?cm = "\<lparr> timestamp = clock E 1, num_nodes = n, signers = addrs, genesis = ?gp, pids = ps \<rparr>"
  let ?mp = "path_join (OUT_DIR E) (''cluster_'' @ str_int (clock E 2) @ ''.json'')"
  let ?tr = "ev1 @ ?ev2 @ ev3 @ ev4 @ ev5 @ (Print (LogBootEnode enode) # add_peers E [2..n] enode)
               @ [WriteFile ?mp (ClusterJson ?cm)]"
  let ?r = "\<lparr> meta = ?cm, meta_path = ?mp \<rparr>"
  have run: "provision_cluster E n c = Some (?tr, Inr ?r)"
    using a st assms(3) by (simp add: provision_cluster_def i Let_def genesis_path_of_def)
  have f1: "filter is_add_peer ?tr = map (\<lambda>i. AddPeerCall (get_node_http_port i) enode) [2..n]"
    using filter_plain(2) [OF p1] filter_plain(2) [OF p3] filter_start_phase(1) [OF p4]
      filter_poll_phase(1) [OF p5]
    by (simp add: write_genesis_filters add_peers_calls)
  have f2: "filter is_peer_outcome ?tr =
      map (\<lambda>i. Print (LogAddPeer i (add_peer E (get_node_http_port i) enode = PeerReturns True))) [2..n]"
    using filter_plain(6) [OF p1] filter_plain(6) [OF p3] filter_start_phase(3) [OF p4]
      filter_poll_phase(3) [OF p5]
    by (simp add: write_genesis_filters add_peers_outcomes)
  have f3: "filter is_record_write ?tr = [WriteFile (meta_path ?r) (ClusterJson (meta ?r))]"
    using filter_plain(3) [OF p1] filter_plain(3) [OF p3] filter_start_phase(2) [OF p4]
      filter_poll_phase(2) [OF p5]
    by (simp add: write_genesis_filters add_peers_other)
  have f4: "num_nodes (meta ?r) = n \<and> signers (meta ?r) = addrs" by simp
  from run f1 f2 f3 f4 show ?thesis by blast
qed

theorem peering_best_effort_witness:
  "snd (init_nodes env_ok 2 1515) = Inr ([''/w/geth_nodes/node1'', ''/w/geth_nodes/node2''], [addr_a, addr_b]) \<and>
   snd (init_all env_ok [''/w/geth_nodes/node1'', ''/w/geth_nodes/node2''] (genesis_path_of env_ok)) = Inr () \<and>
   get_enode_via_rpc env_ok (get_node_http_port 1) =
     Some (concat (replicate 9 [NodeInfoCall 8545, Sleep 1]) @ [NodeInfoCall 8545],
           Inr ''enode://ab@127.0.0.1:30303'') \<and>
   add_peer env_ok 8546 ''enode://ab@127.0.0.1:30303'' = PeerRaises \<and>
   (\<exists>tr r. provision_cluster env_ok 2 1515 = Some (tr, Inr r) \<and>
      filter is_add_peer tr = [AddPeerCall 8546 ''enode://ab@127.0.0.1:30303''] \<and>
      filter is_peer_outcome tr = [Print (LogAddPeer 2 False)] \<and>
      filter is_record_write tr = [WriteFile (meta_path r) (ClusterJson (meta r))] \<and>
      num_nodes (meta r) = 2 \<and> signers (meta r) = [addr_a, addr_b])"
proof -
  have a: "snd (init_all env_ok [''/w/geth_nodes/node1'', ''/w/geth_nodes/node2''] (genesis_path_of env_ok)) = Inr ()"
    by (simp only: genesis_path_samples init_all_env_ok)
  have g: "get_enode_via_rpc env_ok (get_node_http_port 1) =
     Some (concat (replicate 9 [NodeInfoCall 8545, Sleep 1]) @ [NodeInfoCall 8545],
           Inr ''enode://ab@127.0.0.1:30303'')"
    by (simp only: http_port_samples get_enode_env_ok)
  have p: "add_peer env_ok 8546 ''enode://ab@127.0.0.1:30303'' = PeerRaises"
    by (simp add: env_ok_def)
  from peering_best_effort [OF init_nodes_env_ok a g] obtain tr r where
    t: "provision_cluster env_ok 2 1515 = Some (tr, Inr r)"
      "filter is_add_peer tr = map (\<lambda>i. AddPeerCall (get_node_http_port i) ''enode://ab@127.0.0.1:30303'') [2..2]"
      "filter is_peer_outcome tr =
         map (\<lambda>i. Print (LogAddPeer i (add_peer env_ok (get_node_http_port i) ''enode://ab@127.0.0.1:30303'' = PeerReturns True))) [2..2]"
      "filter is_record_write tr = [WriteFile (meta_path r) (ClusterJson (meta r))]"
      "num_nodes (meta r) = 2" "signers (meta r) = [addr_a, addr_b]"
    by blast
  have "filter is_add_peer tr = [AddPeerCall 8546 ''enode://ab@127.0.0.1:30303'']"
    using t(2) by (simp add: upto_small http_port_samples)
  moreover have "filter is_peer_outcome tr = [Print (LogAddPeer 2 False)]"
    using t(3) p by (simp add: upto_small http_port_samples)
  ultimately show ?thesis using init_nodes_env_ok a g p t(1,4,5,6) by blast
qed

section \<open>Discovery that never ends, and a run for no nodes\<close>

text \<open>
  Claim C2. Discovery polls the bootstrap node with a bounded retry: whatever the endpoint
  does, it ends within a fixed number of attempts, returning the address or raising. The
  loop does end so when every reply raises or carries an address (\<open>enode_loop_returns\<close>),
  and nine failures followed by a success return the address (\<open>enode_loop_retry\<close>). But
  a reply that carries no address does not move the attempt counter, and an endpoint that
  always answers so keeps the loop running forever: on such an endpoint discovery
  never returns.
\<close>

theorem discovery_never_returns_without_enode:
  "get_enode_via_rpc env_no_enode (get_node_http_port 1) = None"
  unfolding get_enode_via_rpc_def
  by (rule enode_loop_diverges) (simp_all add: env_no_enode_def)

lemma provision_zero:
  "provision_cluster E 0 c =
     (let gp = genesis_path_of E;
          pre = [Print (LogSigners []),
                 WriteFile gp (GenesisJson (build_clique_genesis c [] default_gas_limit)),
                 Print (LogGenesis gp)];
          cm = \<lparr> timestamp = clock E 1, num_nodes = 0, signers = [], genesis = gp, pids = [] \<rparr>;
          mp = path_join (OUT_DIR E) (''cluster_'' @ str_int (clock E 2) @ ''.json'')
      in case get_enode_via_rpc E HTTP_BASE of
           None \<Rightarrow> None
         | Some (ev5, Inl e) \<Rightarrow> Some (pre @ ev5, Inl e)
         | Some (ev5, Inr enode) \<Rightarrow>
             Some (pre @ ev5 @ [Print (LogBootEnode enode), WriteFile mp (ClusterJson cm)],
                   Inr \<lparr> meta = cm, meta_path = mp \<rparr>))"
proof -
  have i: "init_nodes E 0 c = ([], Inr ([], []))"
    by (simp add: init_nodes_def upto_small)
  have p: "get_node_http_port 1 = HTTP_BASE"
    by (simp add: get_node_http_port_def)
  have e: "enumerate1 ([] :: string list) = []" by (simp add: enumerate1_def)
  show ?thesis
    by (simp add: provision_cluster_def i e p Let_def genesis_path_of_def write_genesis_def upto_small
          split: option.splits sum.splits prod.splits)
qed

lemma provision_zero_same_second:
  "provision_cluster env_same_second 0 c =
     Some ([Print (LogSigners []),
            WriteFile ''/w/out/genesis_100.json'' (GenesisJson (build_clique_genesis c [] default_gas_limit)),
            Print (LogGenesis ''/w/out/genesis_100.json''),
            NodeInfoCall 8545,
            Print (LogBootEnode ''enode://ab@127.0.0.1:30303''),
            WriteFile ''/w/out/cluster_100.json''
              (ClusterJson \<lparr> timestamp = 100, num_nodes = 0, signers = [],
                              genesis = ''/w/out/genesis_100.json'', pids = [] \<rparr>)],
           Inr \<lparr> meta = \<lparr> timestamp = 100, num_nodes = 0, signers = [],
                            genesis = ''/w/out/genesis_100.json'', pids = [] \<rparr>,
                  meta_path = ''/w/out/cluster_100.json'' \<rparr>)"
proof -
  have g: "get_enode_via_rpc env_same_second HTTP_BASE = Some ([NodeInfoCall 8545], Inr ''enode://ab@127.0.0.1:30303'')"
    using get_enode_env_same_second by (simp add: HTTP_BASE_def)
  have m: "OUT_DIR env_same_second = ''/w/out''" "\<And>k. clock env_same_second k = 100"
    "str_int 100 = ''100''"
    by (simp_all add: env_same_second_def env_ok_def OUT_DIR_def str_eval)
  show ?thesis
    using provision_zero [of env_same_second c]
    by (simp add: g m genesis_path_samples Let_def path_join_def)
qed

text \<open>
  Claim C10. A run for zero nodes is not rejected: account creation returns empty lists of
  paths and addresses without raising; the genesis descriptor built from them has an
  \<open>extraData\<close> of \<open>32 + 65\<close> zero bytes; and the run goes on to poll the RPC port of node 1,
  which is \<open>HTTP_BASE\<close>, although no node was created: what the run does next is what
  that discovery does, and a discovery that ends has called \<^verbatim>\<open>node_info\<close> on that port.
\<close>

theorem zero_nodes_run:
  "init_nodes E 0 c = ([], Inr ([], [])) \<and>
   extraData (build_clique_genesis c [] default_gas_limit) = ''0x'' @ replicate 194 (CHR ''0'') \<and>
   decode_hex (replicate 194 (CHR ''0'')) = Some (replicate 97 0) \<and>
   get_node_http_port 1 = HTTP_BASE \<and>
   provision_cluster E 0 c =
     (let gp = genesis_path_of E;
          pre = [Print (LogSigners []),
                 WriteFile gp (GenesisJson (build_clique_genesis c [] default_gas_limit)),
                 Print (LogGenesis gp)];
          cm = \<lparr> timestamp = clock E 1, num_nodes = 0, signers = [], genesis = gp, pids = [] \<rparr>;
          mp = path_join (OUT_DIR E) (''cluster_'' @ str_int (clock E 2) @ ''.json'')
      in case get_enode_via_rpc E HTTP_BASE of
           None \<Rightarrow> None
         | Some (ev5, Inl e) \<Rightarrow> Some (pre @ ev5, Inl e)
         | Some (ev5, Inr enode) \<Rightarrow>
             Some (pre @ ev5 @ [Print (LogBootEnode enode), WriteFile mp (ClusterJson cm)],
                   Inr \<lparr> meta = cm, meta_path = mp \<rparr>)) \<and>
   (get_enode_via_rpc E HTTP_BASE = Some (ev, r) \<longrightarrow> (\<exists>sfx. ev = NodeInfoCall HTTP_BASE # sfx))"
proof -
  have i: "init_nodes E 0 c = ([], Inr ([], []))"
    by (simp add: init_nodes_def upto_small)
  have x: "extraData (build_clique_genesis c [] default_gas_limit) = ''0x'' @ replicate 194 (CHR ''0'')"
    by (simp add: build_clique_genesis_def Let_def zeros_hex_replicate replicate_add [symmetric])
  have d: "decode_hex (replicate 194 (CHR ''0'')) = Some (replicate 97 0)"
    using decode_hex_zeros [of 97] by simp
  have p: "get_node_http_port 1 = HTTP_BASE"
    by (simp add: get_node_http_port_def)
  note run = provision_zero [of E c]
  have f: "get_enode_via_rpc E HTTP_BASE = Some (ev, r) \<longrightarrow> (\<exists>sfx. ev = NodeInfoCall HTTP_BASE # sfx)"
    using get_enode_first_call [of E HTTP_BASE ev r] by blast
  from i x d p run f show ?thesis by blast
qed

theorem zero_nodes_run_witness:
  "get_enode_via_rpc env_same_second HTTP_BASE = Some ([NodeInfoCall 8545], Inr ''enode://ab@127.0.0.1:30303'') \<and>
   init_nodes env_same_second 0 1515 = ([], Inr ([], [])) \<and>
   provision_cluster env_same_second 0 1515 =
     Some ([Print (LogSigners []),
            WriteFile ''/w/out/genesis_100.json'' (GenesisJson (build_clique_genesis 1515 [] default_gas_limit)),
            Print (LogGenesis ''/w/out/genesis_100.json''),
            NodeInfoCall 8545,
            Print (LogBootEnode ''enode://ab@127.0.0.1:30303''),
            WriteFile ''/w/out/cluster_100.json''
              (ClusterJson \<lparr> timestamp = 100, num_nodes = 0, signers = [],
                              genesis = ''/w/out/genesis_100.json'', pids = [] \<rparr>)],
           Inr \<lparr> meta = \<lparr> timestamp = 100, num_nodes = 0, signers = [],
                            genesis = ''/w/out/genesis_100.json'', pids = [] \<rparr>,
                  meta_path = ''/w/out/cluster_100.json'' \<rparr>)"
proof -
  have g: "get_enode_via_rpc env_same_second HTTP_BASE = Some ([NodeInfoCall 8545], Inr ''enode://ab@127.0.0.1:30303'')"
    using get_enode_env_same_second by (simp add: HTTP_BASE_def)
  have m: "OUT_DIR env_same_second = ''/w/out''" "\<And>k. clock env_same_second k = 100"
    "str_int 100 = ''100''"
    by (simp_all add: env_same_second_def env_ok_def OUT_DIR_def str_eval)
  note z = zero_nodes_run [of env_same_second 1515 "[NodeInfoCall 8545]" "Inr ''enode://ab@127.0.0.1:30303''"]
  have i: "init_nodes env_same_second 0 1515 = ([], Inr ([], []))"
    using z by blast
  have "provision_cluster env_same_second 0 1515 =
     Some ([Print (LogSigners []),
            WriteFile ''/w/out/genesis_100.json'' (GenesisJson (build_clique_genesis 1515 [] default_gas_limit)),
            Print (LogGenesis ''/w/out/genesis_100.json''),
            NodeInfoCall 8545,
            Print (LogBootEnode ''enode://ab@127.0.0.1:30303''),
            WriteFile ''/w/out/cluster_100.json''
              (ClusterJson \<lparr> timestamp = 100, num_nodes = 0, signers = [],
                              genesis = ''/w/out/genesis_100.json'', pids = [] \<rparr>)],
           Inr \<lparr> meta = \<lparr> timestamp = 100, num_nodes = 0, signers = [],
                            genesis = ''/w/out/genesis_100.json'', pids = [] \<rparr>,
                  meta_path = ''/w/out/cluster_100.json'' \<rparr>)"
    using z by (simp add: g m genesis_path_samples Let_def path_join_def)
  with g i show ?thesis by (intro conjI)
qed

section \<open>What identity provisioning returns\<close>

lemma start_not_genesis: "is_start ev \<Longrightarrow> \<not> is_genesis_write ev"
  by (cases ev rule: is_start.cases) simp_all

lemma node_info_not_genesis: "is_node_info ev \<Longrightarrow> \<not> is_genesis_write ev"
  by (cases ev rule: is_node_info.cases) simp_all

lemma add_peers_no_genesis: "filter is_genesis_write (add_peers E ns enode) = []"
proof (induction ns)
  case Nil
  show ?case by simp
next
  case (Cons i ns)
  then show ?case
    using add_peer_via_rpc_fst [of E "get_node_http_port i" enode] by (auto split: prod.splits)
qed

text \<open>The shape of a run that returns.\<close>

lemma provision_returns:
  assumes "snd (init_nodes E n c) = Inr (paths, addrs)"
    and "snd (init_all E paths (genesis_path_of E)) = Inr ()"
    and "get_enode_via_rpc E (get_node_http_port 1) = Some (ev5, Inr enode)"
  shows "\<exists>ev3 ev4 ps.
           provision_cluster E n c =
             Some (fst (init_nodes E n c)
                   @ (Print (LogSigners addrs)
                      # write_genesis (build_clique_genesis c addrs default_gas_limit) (genesis_path_of E))
                   @ ev3 @ ev4 @ ev5 @ (Print (LogBootEnode enode) # add_peers E [2..n] enode)
                   @ [WriteFile (path_join (OUT_DIR E) (''cluster_'' @ str_int (clock E 2) @ ''.json''))
                        (ClusterJson \<lparr> timestamp = clock E 1, num_nodes = n, signers = addrs,
                                        genesis = genesis_path_of E, pids = ps \<rparr>)],
                   Inr \<lparr> meta = \<lparr> timestamp = clock E 1, num_nodes = n, signers = addrs,
                                    genesis = genesis_path_of E, pids = ps \<rparr>,
                          meta_path = path_join (OUT_DIR E) (''cluster_'' @ str_int (clock E 2) @ ''.json'') \<rparr>) \<and>
           list_all plain ev3 \<and> filter is_write ev3 = [] \<and>
           list_all (\<lambda>e. plain e \<or> is_start e) ev4 \<and> filter is_write ev4 = []"
proof -
  obtain ev1 where i: "init_nodes E n c = (ev1, Inr (paths, addrs))"
    using assms(1) by (cases "init_nodes E n c") auto
  let ?gp = "genesis_path_of E"
  obtain ev3 where a: "init_all E paths ?gp = (ev3, Inr ())"
    using assms(2) by (cases "init_all E paths ?gp") auto
  have p3: "list_all plain ev3" "filter is_write ev3 = []"
    using init_all_plain [of E paths ?gp] init_all_no_write [of E paths ?gp] a by simp_all
  from start_phase_ok [OF assms(1)] obtain ev4 ps where
    st: "start_all E (enumerate1 paths) addrs [] = (ev4, Inr ps)"
    and p4: "list_all (\<lambda>e. plain e \<or> is_start e) ev4" by blast
  have w4: "filter is_write ev4 = []"
    using start_all_no_write [of E "enumerate1 paths" addrs "[]"] st by simp
  have "provision_cluster E n c =
             Some (fst (init_nodes E n c)
                   @ (Print (LogSigners addrs)
                      # write_genesis (build_clique_genesis c addrs default_gas_limit) (genesis_path_of E))
                   @ ev3 @ ev4 @ ev5 @ (Print (LogBootEnode enode) # add_peers E [2..n] enode)
                   @ [WriteFile (path_join (OUT_DIR E) (''cluster_'' @ str_int (clock E 2) @ ''.json''))
                        (ClusterJson \<lparr> timestamp = clock E 1, num_nodes = n, signers = addrs,
                                        genesis = genesis_path_of E, pids = ps \<rparr>)],
                   Inr \<lparr> meta = \<lparr> timestamp = clock E 1, num_nodes = n, signers = addrs,
                                    genesis = genesis_path_of E, pids = ps \<rparr>,
                          meta_path = path_join (OUT_DIR E) (''cluster_'' @ str_int (clock E 2) @ ''.json'') \<rparr>)"
    using a st assms(3) by (simp add: provision_cluster_def i Let_def genesis_path_of_def)
  with p3 p4 w4 show ?thesis by blast
qed

lemma provision_returns_genesis:
  assumes "snd (init_nodes E n c) = Inr (paths, addrs)"
    and "snd (init_all E paths (genesis_path_of E)) = Inr ()"
    and "get_enode_via_rpc E (get_node_http_port 1) = Some (ev5, Inr enode)"
  shows "run_value (provision_cluster E n c) \<noteq> None \<and>
         filter is_genesis_write (run_events (provision_cluster E n c)) =
           [WriteFile (genesis_path_of E) (GenesisJson (build_clique_genesis c addrs default_gas_limit))]"
proof -
  from provision_returns [OF assms] obtain ev3 ev4 ps where
    run: "provision_cluster E n c =
             Some (fst (init_nodes E n c)
                   @ (Print (LogSigners addrs)
                      # write_genesis (build_clique_genesis c addrs default_gas_limit) (genesis_path_of E))
                   @ ev3 @ ev4 @ ev5 @ (Print (LogBootEnode enode) # add_peers E [2..n] enode)
                   @ [WriteFile (path_join (OUT_DIR E) (''cluster_'' @ str_int (clock E 2) @ ''.json''))
                        (ClusterJson \<lparr> timestamp = clock E 1, num_nodes = n, signers = addrs,
                                        genesis = genesis_path_of E, pids = ps \<rparr>)],
                   Inr \<lparr> meta = \<lparr> timestamp = clock E 1, num_nodes = n, signers = addrs,
                                    genesis = genesis_path_of E, pids = ps \<rparr>,
                          meta_path = path_join (OUT_DIR E) (''cluster_'' @ str_int (clock E 2) @ ''.json'') \<rparr>)"
    and p3: "list_all plain ev3" and p4: "list_all (\<lambda>e. plain e \<or> is_start e) ev4"
    by blast
  have g1: "filter is_genesis_write (fst (init_nodes E n c)) = []"
    by (rule filter_plain(4) [OF init_nodes_plain])
  have g3: "filter is_genesis_write ev3 = []" by (rule filter_plain(4) [OF p3])
  have g4: "filter is_genesis_write ev4 = []"
    using p4 plain_not start_not_genesis by (auto simp: filter_empty_conv list_all_iff)
  have "list_all (\<lambda>e. plain e \<or> is_node_info e) ev5" using assms(3) by (rule get_enode_events)
  then have g5: "filter is_genesis_write ev5 = []"
    using plain_not node_info_not_genesis by (auto simp: filter_empty_conv list_all_iff)
  show ?thesis
    by (simp add: run run_value_def run_events_def g1 g3 g4 g5 add_peers_no_genesis write_genesis_def)
qed

text \<open>
  Claim C3, as the code has it. Identity provisioning compares no addresses. For every
  target count \<open>N\<close> it returns the addresses that the \<open>N\<close> account creations reported, in
  node order, with the node directories; so it returns \<open>N\<close> addresses, without
  duplicates exactly when the reported addresses are pairwise different. It raises only
  when an account creation yields no address, and then the run raises before any genesis
  descriptor is written.
\<close>

theorem init_nodes_reports:
  "(snd (init_nodes E n c) = Inr (paths, addrs) \<longleftrightarrow>
      paths = map (node_dir_of E) [1..n] \<and>
      map Inr addrs = map (\<lambda>i. snd (create_account E (path_join (node_dir_of E i) ''data''))) [1..n]) \<and>
   (snd (init_nodes E n c) = Inr (paths, addrs) \<longrightarrow>
      length addrs = nat n \<and>
      distinct addrs = distinct (map (\<lambda>i. snd (create_account E (path_join (node_dir_of E i) ''data''))) [1..n])) \<and>
   (snd (init_nodes E n c) = Inl e \<longrightarrow>
      (\<exists>tr. provision_cluster E n c = Some (tr, Inl e) \<and> filter is_genesis_write tr = []))"
proof -
  let ?rep = "map (\<lambda>i. snd (create_account E (path_join (node_dir_of E i) ''data''))) [1..n]"
  have a: "snd (init_nodes E n c) = Inr (paths, addrs) \<longleftrightarrow>
      paths = map (node_dir_of E) [1..n] \<and> map Inr addrs = ?rep"
    using init_nodes_loop_result [of E "[1..n]" "[]" "[]" paths addrs] by (simp add: init_nodes_def)
  have b: "length addrs = nat n \<and> distinct addrs = distinct ?rep"
    if "snd (init_nodes E n c) = Inr (paths, addrs)"
  proof -
    from that a have m: "map Inr addrs = ?rep" by blast
    have "length addrs = length (map Inr addrs :: (exn + string) list)" by simp
    also have "\<dots> = length ?rep" by (simp only: m)
    also have "\<dots> = nat n" by simp
    finally have l: "length addrs = nat n" .
    have "distinct addrs = distinct (map Inr addrs :: (exn + string) list)"
      by (simp add: distinct_map)
    also have "\<dots> = distinct ?rep" by (simp only: m)
    finally show ?thesis using l by blast
  qed
  have d: "\<exists>tr. provision_cluster E n c = Some (tr, Inl e) \<and> filter is_genesis_write tr = []"
    if "snd (init_nodes E n c) = Inl e"
  proof -
    from that obtain ev1 where i: "init_nodes E n c = (ev1, Inl e)"
      by (cases "init_nodes E n c") auto
    have "list_all plain ev1" using init_nodes_plain [of E n c] i by simp
    then have "filter is_genesis_write ev1 = []" by (rule filter_plain(4))
    moreover have "provision_cluster E n c = Some (ev1, Inl e)"
      by (simp add: provision_cluster_def i)
    ultimately show ?thesis by blast
  qed
  from a b d show ?thesis by blast
qed

theorem init_nodes_reports_witness:
  "snd (init_nodes env_ok 2 1515) = Inr ([''/w/geth_nodes/node1'', ''/w/geth_nodes/node2''], [addr_a, addr_b]) \<and>
   length [addr_a, addr_b] = nat 2 \<and>
   distinct (map (\<lambda>i. snd (create_account env_ok (path_join (node_dir_of env_ok i) ''data''))) [1..2]) \<and>
   snd (init_nodes env_no_account 2 1515) = Inl (RuntimeError ''Could not create account: output=Fatal: no key'') \<and>
   (\<exists>tr. provision_cluster env_no_account 2 1515 =
            Some (tr, Inl (RuntimeError ''Could not create account: output=Fatal: no key'')) \<and>
          filter is_genesis_write tr = [])"
proof -
  note ok = init_nodes_reports [of env_ok 2 1515 "[''/w/geth_nodes/node1'', ''/w/geth_nodes/node2'']"
      "[addr_a, addr_b]" undefined]
  note bad = init_nodes_reports [of env_no_account 2 1515 undefined undefined
      "RuntimeError ''Could not create account: output=Fatal: no key''"]
  have d: "distinct [addr_a, addr_b]" by (simp add: addr_a_def addr_b_def)
  have "distinct (map (\<lambda>i. snd (create_account env_ok (path_join (node_dir_of env_ok i) ''data''))) [1..2])"
    using ok init_nodes_env_ok d by blast
  moreover have "\<exists>tr. provision_cluster env_no_account 2 1515 =
            Some (tr, Inl (RuntimeError ''Could not create account: output=Fatal: no key'')) \<and>
          filter is_genesis_write tr = []"
    using bad init_nodes_env_no_account by blast
  ultimately show ?thesis
    using init_nodes_env_ok init_nodes_env_no_account by simp
qed

theorem duplicate_addresses_counterexample:
  "snd (init_nodes env_dup 2 1515) =
     Inr ([''/w/geth_nodes/node1'', ''/w/geth_nodes/node2''], [addr_a, addr_a]) \<and>
   \<not> distinct [addr_a, addr_a] \<and>
   run_value (provision_cluster env_dup 2 1515) \<noteq> None \<and>
   filter is_genesis_write (run_events (provision_cluster env_dup 2 1515)) =
     [WriteFile ''/w/out/genesis_100.json''
        (GenesisJson (build_clique_genesis 1515 [addr_a, addr_a] default_gas_limit))]"
proof -
  have a: "snd (init_all env_dup [''/w/geth_nodes/node1'', ''/w/geth_nodes/node2''] (genesis_path_of env_dup)) = Inr ()"
    by (simp only: genesis_path_samples init_all_env_dup)
  have g: "get_enode_via_rpc env_dup (get_node_http_port 1) =
     Some (concat (replicate 9 [NodeInfoCall 8545, Sleep 1]) @ [NodeInfoCall 8545],
           Inr ''enode://ab@127.0.0.1:30303'')"
    by (simp only: http_port_samples get_enode_env_dup)
  from provision_returns_genesis [OF init_nodes_env_dup a g] init_nodes_env_dup
  show ?thesis by (simp add: genesis_path_samples)
qed

section \<open>Decimal rendering is injective\<close>

lemma dec_digit_inj: "a < 10 \<Longrightarrow> b < 10 \<Longrightarrow> dec_digit a = dec_digit b \<Longrightarrow> a = b"
proof -
  assume a: "a < 10" and b: "b < 10" and e: "dec_digit a = dec_digit b"
  have "distinct ''0123456789''" by simp
  moreover have "a < length ''0123456789''" "b < length ''0123456789''" using a b by simp_all
  ultimately show "a = b" using e unfolding dec_digit_def by (simp only: nth_eq_iff_index_eq)
qed

lemma dec_digit_not_minus: "d < 10 \<Longrightarrow> dec_digit d \<noteq> CHR ''-''"
proof -
  assume "d < 10"
  then have "dec_digit d \<in> set ''0123456789''"
    unfolding dec_digit_def by (intro nth_mem) simp
  then show ?thesis by auto
qed

lemma dec_digits_nonempty: "dec_digits n \<noteq> []"
  by (subst dec_digits.simps) simp

lemma dec_digits_no_minus: "CHR ''-'' \<notin> set (dec_digits n)"
proof (induction n rule: dec_digits.induct)
  case (1 n)
  show ?case
  proof (cases "n < 10")
    case True
    then show ?thesis using dec_digit_not_minus [of n] by (subst dec_digits.simps) auto
  next
    case False
    then have "n mod 10 < 10" by simp
    with False 1 dec_digit_not_minus [of "n mod 10"] show ?thesis
      by (subst dec_digits.simps) auto
  qed
qed

lemma dec_digits_inj: "dec_digits n = dec_digits m \<Longrightarrow> n = m"
proof (induction n arbitrary: m rule: dec_digits.induct)
  case (1 n)
  show ?case
  proof (cases "n < 10")
    case n: True
    show ?thesis
    proof (cases "m < 10")
      case True
      with n 1(2) show ?thesis
        by (simp add: dec_digits.simps [of n] dec_digits.simps [of m] dec_digit_inj)
    next
      case False
      with n 1(2) have "[dec_digit n] = dec_digits (m div 10) @ [dec_digit (m mod 10)]"
        by (simp add: dec_digits.simps [of n] dec_digits.simps [of m])
      then show ?thesis using dec_digits_nonempty [of "m div 10"] by simp
    qed
  next
    case n: False
    show ?thesis
    proof (cases "m < 10")
      case True
      with n 1(2) have "dec_digits (n div 10) @ [dec_digit (n mod 10)] = [dec_digit m]"
        by (simp add: dec_digits.simps [of n] dec_digits.simps [of m])
      then show ?thesis using dec_digits_nonempty [of "n div 10"] by simp
    next
      case False
      with n 1(2) have e: "dec_digits (n div 10) = dec_digits (m div 10)"
          "dec_digit (n mod 10) = dec_digit (m mod 10)"
        by (simp_all add: dec_digits.simps [of n] dec_digits.simps [of m])
      from 1(1) [OF n e(1)] have "n div 10 = m div 10" .
      moreover have "n mod 10 = m mod 10"
        using e(2) by (intro dec_digit_inj) simp_all
      ultimately show ?thesis by (metis div_mult_mod_eq)
    qed
  qed
qed

lemma str_int_inj: "str_int a = str_int b \<Longrightarrow> a = b"
proof -
  assume e: "str_int a = str_int b"
  have neg_pos: False if "x < 0" "\<not> y < 0" "str_int x = str_int y" for x y
  proof -
    from that have "CHR ''-'' # dec_digits (nat (- x)) = dec_digits (nat y)"
      by (simp add: str_int_def)
    then have "CHR ''-'' \<in> set (dec_digits (nat y))" by (metis list.set_intros(1))
    then show False using dec_digits_no_minus by blast
  qed
  show ?thesis
  proof (cases "a < 0")
    case a: True
    show ?thesis
    proof (cases "b < 0")
      case True
      with a e have "dec_digits (nat (- a)) = dec_digits (nat (- b))" by (simp add: str_int_def)
      then have "nat (- a) = nat (- b)" by (rule dec_digits_inj)
      with a True show ?thesis by simp
    next
      case False
      with a e neg_pos [of a b] show ?thesis by blast
    qed
  next
    case a: False
    show ?thesis
    proof (cases "b < 0")
      case True
      with a e neg_pos [of b a] show ?thesis by simp
    next
      case False
      with a e have "dec_digits (nat a) = dec_digits (nat b)" by (simp add: str_int_def)
      then have "nat a = nat b" by (rule dec_digits_inj)
      with a False show ?thesis by simp
    qed
  qed
qed

section \<open>The files of a run\<close>

lemma dirs_split: "\<exists>P. OUT_DIR E = P @ ''out'' \<and> NODES_DIR E = P @ ''geth_nodes''"
proof (cases "BASE_DIR E = [] \<or> last (BASE_DIR E) = CHR ''/''")
  case True
  then have "OUT_DIR E = BASE_DIR E @ ''out'' \<and> NODES_DIR E = BASE_DIR E @ ''geth_nodes''"
    by (simp add: OUT_DIR_def NODES_DIR_def path_join_def)
  then show ?thesis by blast
next
  case False
  then have "OUT_DIR E = (BASE_DIR E @ ''/'') @ ''out'' \<and> NODES_DIR E = (BASE_DIR E @ ''/'') @ ''geth_nodes''"
    by (simp add: OUT_DIR_def NODES_DIR_def path_join_def)
  then show ?thesis by blast
qed

lemma out_file_genesis:
  "path_join (OUT_DIR E) (''genesis_'' @ s) = OUT_DIR E @ ''/genesis_'' @ s"
proof -
  obtain P where "OUT_DIR E = P @ ''out''" using dirs_split by blast
  then show ?thesis by (simp add: path_join_def)
qed

lemma out_file_cluster:
  "path_join (OUT_DIR E) (''cluster_'' @ s) = OUT_DIR E @ ''/cluster_'' @ s"
proof -
  obtain P where "OUT_DIR E = P @ ''out''" using dirs_split by blast
  then show ?thesis by (simp add: path_join_def)
qed

lemma path_join_ext: "take 1 b \<noteq> ''/'' \<Longrightarrow> \<exists>m. path_join a b = a @ m"
  by (simp add: path_join_def)

lemma pw_path_under_nodes:
  "\<exists>m. path_join (path_join (node_dir_of E i) ''data'') ''pw.txt'' = NODES_DIR E @ m"
proof -
  obtain m1 where m1: "node_dir_of E i = NODES_DIR E @ m1"
    unfolding node_dir_of_def using path_join_ext [of "''node'' @ str_int i" "NODES_DIR E"] by auto
  obtain m2 where m2: "path_join (node_dir_of E i) ''data'' = node_dir_of E i @ m2"
    using path_join_ext [of "''data''" "node_dir_of E i"] by auto
  obtain m3 where m3: "path_join (path_join (node_dir_of E i) ''data'') ''pw.txt''
      = path_join (node_dir_of E i) ''data'' @ m3"
    using path_join_ext [of "''pw.txt''" "path_join (node_dir_of E i) ''data''"] by auto
  have "path_join (path_join (node_dir_of E i) ''data'') ''pw.txt''
      = path_join (node_dir_of E i) ''data'' @ m3" by (rule m3)
  also have "\<dots> = (node_dir_of E i @ m2) @ m3" by (simp only: m2)
  also have "\<dots> = ((NODES_DIR E @ m1) @ m2) @ m3" by (simp only: m1)
  finally have "path_join (path_join (node_dir_of E i) ''data'') ''pw.txt'' = NODES_DIR E @ (m1 @ m2 @ m3)"
    by simp
  then show ?thesis by blast
qed

lemma pw_path_not_out:
  "path_join (path_join (node_dir_of E i) ''data'') ''pw.txt'' \<noteq> OUT_DIR E @ s"
proof -
  obtain P where P: "OUT_DIR E = P @ ''out''" "NODES_DIR E = P @ ''geth_nodes''"
    using dirs_split by blast
  obtain m where "path_join (path_join (node_dir_of E i) ''data'') ''pw.txt'' = NODES_DIR E @ m"
    using pw_path_under_nodes by blast
  then show ?thesis by (simp add: P)
qed

lemma create_account_events:
  "fst (create_account E d) =
     [WriteFile (path_join d ''pw.txt'') (Text (''password'' @ [CHR 0x0A])),
      Print (LogCmd (GETH_COMMAND E @ '' --datadir '' @ d @ '' account new --password '' @ path_join d ''pw.txt'')),
      Run (GETH_COMMAND E @ '' --datadir '' @ d @ '' account new --password '' @ path_join d ''pw.txt'')]"
  by (simp add: create_account_def create_password_file_def run_def Let_def)

lemma init_nodes_loop_writes:
  "WriteFile q x \<in> set (fst (init_nodes_loop E ns ps as)) \<Longrightarrow>
   \<exists>i. q = path_join (path_join (node_dir_of E i) ''data'') ''pw.txt''"
proof (induction ns arbitrary: ps as)
  case Nil
  then show ?case by simp
next
  case (Cons i ns)
  let ?d = "path_join (node_dir_of E i) ''data''"
  obtain ev r where c: "create_account E ?d = (ev, r)" by (cases "create_account E ?d")
  then have ev: "ev = fst (create_account E ?d)" by simp
  show ?case
  proof (cases r)
    case (Inl e)
    with c Cons.prems have "WriteFile q x \<in> set ev"
      by (simp add: node_dir_of_def Let_def)
    then show ?thesis unfolding ev create_account_events by auto
  next
    case (Inr a)
    obtain ev' r' where l: "init_nodes_loop E ns (ps @ [node_dir_of E i]) (as @ [a]) = (ev', r')"
      by (cases "init_nodes_loop E ns (ps @ [node_dir_of E i]) (as @ [a])")
    with c Inr Cons.prems have "WriteFile q x \<in> set ev \<or> WriteFile q x \<in> set ev'"
      by (auto simp: node_dir_of_def Let_def)
    then show ?thesis
    proof
      assume "WriteFile q x \<in> set ev"
      then show ?thesis unfolding ev create_account_events by auto
    next
      assume "WriteFile q x \<in> set ev'"
      then have "WriteFile q x \<in> set (fst (init_nodes_loop E ns (ps @ [node_dir_of E i]) (as @ [a])))"
        using l by simp
      then show ?thesis by (rule Cons.IH)
    qed
  qed
qed

lemma apply_event_untouched: "(\<And>x. e \<noteq> WriteFile p x) \<Longrightarrow> apply_event fs e p = fs p"
  by (cases e) auto

lemma files_after_untouched:
  "(\<And>x. WriteFile p x \<notin> set evs) \<Longrightarrow> files_after evs fs p = fs p"
proof (induction evs arbitrary: fs)
  case Nil
  show ?case by (simp add: files_after_def)
next
  case (Cons e evs)
  have "files_after (e # evs) fs p = files_after evs (apply_event fs e) p"
    by (simp add: files_after_def)
  also have "\<dots> = apply_event fs e p"
    using Cons.prems by (intro Cons.IH) simp
  also have "\<dots> = fs p"
    using Cons.prems by (intro apply_event_untouched) auto
  finally show ?case .
qed

lemma files_after_no_write: "filter is_write evs = [] \<Longrightarrow> files_after evs fs = fs"
proof (induction evs arbitrary: fs)
  case Nil
  show ?case by (simp add: files_after_def)
next
  case (Cons e evs)
  then have "\<not> is_write e" "filter is_write evs = []" by (auto split: if_splits)
  then have "apply_event fs e = fs" "files_after evs fs = fs"
    using Cons.IH by (cases e; simp)+
  then show ?case by (simp add: files_after_def)
qed

lemma files_after_append: "files_after (xs @ ys) fs = files_after ys (files_after xs fs)"
  by (simp add: files_after_def)

lemma files_after_write: "files_after (WriteFile p x # evs) fs = files_after evs (fs(p \<mapsto> x))"
  by (simp add: files_after_def)

lemma files_after_print: "files_after (Print l # evs) fs = files_after evs fs"
  by (simp add: files_after_def)

lemma init_nodes_keeps_out:
  "files_after (fst (init_nodes E n c)) fs (OUT_DIR E @ s) = fs (OUT_DIR E @ s)"
proof (rule files_after_untouched)
  fix x
  show "WriteFile (OUT_DIR E @ s) x \<notin> set (fst (init_nodes E n c))"
  proof
    assume "WriteFile (OUT_DIR E @ s) x \<in> set (fst (init_nodes E n c))"
    then obtain i where "OUT_DIR E @ s = path_join (path_join (node_dir_of E i) ''data'') ''pw.txt''"
      unfolding init_nodes_def using init_nodes_loop_writes by blast
    then show False using pw_path_not_out [of E i s] by simp
  qed
qed

lemma provision_returns_inv:
  assumes "provision_cluster E n c = Some (tr, Inr r)"
  shows "\<exists>paths addrs ev5 enode.
           snd (init_nodes E n c) = Inr (paths, addrs) \<and>
           snd (init_all E paths (genesis_path_of E)) = Inr () \<and>
           get_enode_via_rpc E (get_node_http_port 1) = Some (ev5, Inr enode)"
proof -
  obtain ev1 r1 where i: "init_nodes E n c = (ev1, r1)" by (cases "init_nodes E n c")
  show ?thesis
  proof (cases r1)
    case (Inl e)
    with assms i show ?thesis by (simp add: provision_cluster_def)
  next
    case (Inr pa)
    obtain paths addrs where pa: "pa = (paths, addrs)" by (cases pa)
    obtain ev3 r3 where a: "init_all E paths (genesis_path_of E) = (ev3, r3)"
      by (cases "init_all E paths (genesis_path_of E)")
    show ?thesis
    proof (cases r3)
      case (Inl e)
      with assms i Inr pa a show ?thesis
        by (simp add: provision_cluster_def Let_def genesis_path_of_def)
    next
      case r3: (Inr u)
      have s: "snd (init_nodes E n c) = Inr (paths, addrs)" using i Inr pa by simp
      from start_phase_ok [OF s] obtain ev4 ps where
        st: "start_all E (enumerate1 paths) addrs [] = (ev4, Inr ps)" by blast
      show ?thesis
      proof (cases "get_enode_via_rpc E (get_node_http_port 1)")
        case None
        with assms i Inr pa a r3 st show ?thesis
          by (simp add: provision_cluster_def Let_def genesis_path_of_def)
      next
        case (Some y)
        obtain ev5 r5 where y: "y = (ev5, r5)" by (cases y)
        show ?thesis
        proof (cases r5)
          case (Inl e)
          with assms i Inr pa a r3 st Some y show ?thesis
            by (simp add: provision_cluster_def Let_def genesis_path_of_def)
        next
          case r5: (Inr enode)
          have "snd (init_all E paths (genesis_path_of E)) = Inr ()" using a r3 by simp
          with s Some y r5 show ?thesis by blast
        qed
      qed
    qed
  qed
qed

lemma run_files:
  assumes "provision_cluster E n c = Some (tr, Inr r)"
  shows "genesis (meta r) = genesis_path_of E \<and>
         meta_path r = path_join (OUT_DIR E) (''cluster_'' @ str_int (clock E 2) @ ''.json'') \<and>
         timestamp (meta r) = clock E 1 \<and>
         files_after tr fs =
           (files_after (fst (init_nodes E n c)) fs)
             (genesis_path_of E \<mapsto> GenesisJson (build_clique_genesis c (signers (meta r)) default_gas_limit),
              meta_path r \<mapsto> ClusterJson (meta r))"
proof -
  from provision_returns_inv [OF assms] obtain paths addrs ev5 enode where
    h: "snd (init_nodes E n c) = Inr (paths, addrs)"
       "snd (init_all E paths (genesis_path_of E)) = Inr ()"
       "get_enode_via_rpc E (get_node_http_port 1) = Some (ev5, Inr enode)"
    by blast
  let ?mp = "path_join (OUT_DIR E) (''cluster_'' @ str_int (clock E 2) @ ''.json'')"
  from provision_returns [OF h] obtain ev3 ev4 ps where
    run: "provision_cluster E n c =
             Some (fst (init_nodes E n c)
                   @ (Print (LogSigners addrs)
                      # write_genesis (build_clique_genesis c addrs default_gas_limit) (genesis_path_of E))
                   @ ev3 @ ev4 @ ev5 @ (Print (LogBootEnode enode) # add_peers E [2..n] enode)
                   @ [WriteFile ?mp
                        (ClusterJson \<lparr> timestamp = clock E 1, num_nodes = n, signers = addrs,
                                        genesis = genesis_path_of E, pids = ps \<rparr>)],
                   Inr \<lparr> meta = \<lparr> timestamp = clock E 1, num_nodes = n, signers = addrs,
                                    genesis = genesis_path_of E, pids = ps \<rparr>,
                          meta_path = ?mp \<rparr>)"
    and w3: "filter is_write ev3 = []" and w4: "filter is_write ev4 = []"
    by blast
  have w5: "filter is_write ev5 = []" using h(3) by (rule get_enode_no_write)
  let ?cm = "\<lparr> timestamp = clock E 1, num_nodes = n, signers = addrs,
                 genesis = genesis_path_of E, pids = ps \<rparr>"
  from run assms have tr: "tr = fst (init_nodes E n c)
                   @ (Print (LogSigners addrs)
                      # write_genesis (build_clique_genesis c addrs default_gas_limit) (genesis_path_of E))
                   @ ev3 @ ev4 @ ev5 @ (Print (LogBootEnode enode) # add_peers E [2..n] enode)
                   @ [WriteFile ?mp (ClusterJson ?cm)]"
    and r: "r = \<lparr> meta = ?cm, meta_path = ?mp \<rparr>"
    by simp_all
  have "files_after tr fs =
      (files_after (fst (init_nodes E n c)) fs)
        (genesis_path_of E \<mapsto> GenesisJson (build_clique_genesis c addrs default_gas_limit),
         ?mp \<mapsto> ClusterJson ?cm)"
    unfolding tr
    by (simp add: files_after_append files_after_write files_after_print write_genesis_def
          files_after_no_write [OF w3] files_after_no_write [OF w4] files_after_no_write [OF w5]
          files_after_no_write [OF add_peers_other(3)])
       (simp add: files_after_def)
  then show ?thesis by (simp add: r)
qed

lemma genesis_path_form:
  "genesis_path_of E = OUT_DIR E @ ''/genesis_'' @ str_int (clock E 0) @ ''.json''"
  by (simp only: genesis_path_of_def out_file_genesis)

lemma genesis_path_eq:
  assumes "OUT_DIR E2 = OUT_DIR E1"
  shows "(genesis_path_of E2 = genesis_path_of E1) = (clock E2 0 = clock E1 0)"
  unfolding genesis_path_form assms by (auto dest: str_int_inj)

lemma cluster_path_eq:
  assumes "OUT_DIR E2 = OUT_DIR E1"
  shows "(path_join (OUT_DIR E2) (''cluster_'' @ str_int t2 @ ''.json'')
      = path_join (OUT_DIR E1) (''cluster_'' @ str_int t1 @ ''.json'')) = (t2 = t1)"
  unfolding out_file_cluster assms by (auto dest: str_int_inj)

lemma genesis_not_cluster:
  assumes "OUT_DIR E2 = OUT_DIR E1"
  shows "genesis_path_of E1 \<noteq> path_join (OUT_DIR E2) (''cluster_'' @ s)"
  unfolding genesis_path_form out_file_cluster assms by simp

lemma genesis_path_out: "\<exists>s. genesis_path_of E = OUT_DIR E @ s"
  unfolding genesis_path_form by blast

lemma cluster_path_out: "\<exists>s'. path_join (OUT_DIR E) (''cluster_'' @ s) = OUT_DIR E @ s'"
  unfolding out_file_cluster by blast

text \<open>
  Claim C8, as the code has it. A run names its genesis file after the clock second read
  when the name is built, and its cluster-record file likewise, and opens each for writing,
  which replaces a file of that name. So two consecutive runs from the same base
  directory keep each other's files when the second run reads other seconds than the
  first at those two points: after both runs each run's genesis file and record file
  hold what that run wrote, and the two records differ. The timestamp of a record is the
  second its run read for it.
\<close>

theorem two_runs_keep_files:
  assumes "provision_cluster E1 n1 c1 = Some (tr1, Inr r1)"
    and "provision_cluster E2 n2 c2 = Some (tr2, Inr r2)"
    and "BASE_DIR E2 = BASE_DIR E1"
    and "clock E2 0 \<noteq> clock E1 0"
    and "clock E2 2 \<noteq> clock E1 2"
  shows "files_after tr2 (files_after tr1 fs) (genesis (meta r1)) =
           Some (GenesisJson (build_clique_genesis c1 (signers (meta r1)) default_gas_limit)) \<and>
         files_after tr2 (files_after tr1 fs) (meta_path r1) = Some (ClusterJson (meta r1)) \<and>
         files_after tr2 (files_after tr1 fs) (genesis (meta r2)) =
           Some (GenesisJson (build_clique_genesis c2 (signers (meta r2)) default_gas_limit)) \<and>
         files_after tr2 (files_after tr1 fs) (meta_path r2) = Some (ClusterJson (meta r2)) \<and>
         meta r1 \<noteq> meta r2 \<and>
         timestamp (meta r1) = clock E1 1 \<and> timestamp (meta r2) = clock E2 1"
proof -
  have o: "OUT_DIR E2 = OUT_DIR E1" using assms(3) by (simp add: OUT_DIR_def)
  let ?F1 = "files_after tr1 fs"
  let ?g1 = "genesis_path_of E1" and ?g2 = "genesis_path_of E2"
  let ?G1 = "GenesisJson (build_clique_genesis c1 (signers (meta r1)) default_gas_limit)"
  let ?G2 = "GenesisJson (build_clique_genesis c2 (signers (meta r2)) default_gas_limit)"
  from run_files [OF assms(1), of fs] have
    a1: "genesis (meta r1) = ?g1"
    and m1: "meta_path r1 = path_join (OUT_DIR E1) (''cluster_'' @ str_int (clock E1 2) @ ''.json'')"
    and t1: "timestamp (meta r1) = clock E1 1"
    and f1: "?F1 = (files_after (fst (init_nodes E1 n1 c1)) fs)
               (?g1 \<mapsto> ?G1, meta_path r1 \<mapsto> ClusterJson (meta r1))"
    by blast+
  from run_files [OF assms(2), of ?F1] have
    a2: "genesis (meta r2) = ?g2"
    and m2: "meta_path r2 = path_join (OUT_DIR E2) (''cluster_'' @ str_int (clock E2 2) @ ''.json'')"
    and t2: "timestamp (meta r2) = clock E2 1"
    and f2: "files_after tr2 ?F1 = (files_after (fst (init_nodes E2 n2 c2)) ?F1)
               (?g2 \<mapsto> ?G2, meta_path r2 \<mapsto> ClusterJson (meta r2))"
    by blast+
  have d1: "?g2 \<noteq> ?g1" using genesis_path_eq [OF o] assms(4) by simp
  have d2: "meta_path r2 \<noteq> meta_path r1"
    unfolding m1 m2 using cluster_path_eq [OF o] assms(5) by simp
  have d3: "?g1 \<noteq> meta_path r2" unfolding m2 using o by (rule genesis_not_cluster)
  have d4: "?g1 \<noteq> meta_path r1" unfolding m1 by (rule genesis_not_cluster) simp
  have d5: "?g2 \<noteq> meta_path r1" unfolding m1 using o [symmetric] by (rule genesis_not_cluster)
  have d6: "?g2 \<noteq> meta_path r2" unfolding m2 by (rule genesis_not_cluster) simp
  obtain s1 where s1: "?g1 = OUT_DIR E2 @ s1" using genesis_path_out [of E1] o by auto
  obtain s2 where s2: "meta_path r1 = OUT_DIR E2 @ s2"
    unfolding m1 using cluster_path_out [of E1] o by auto
  have k1: "files_after (fst (init_nodes E2 n2 c2)) ?F1 ?g1 = ?F1 ?g1"
    unfolding s1 by (rule init_nodes_keeps_out)
  have k2: "files_after (fst (init_nodes E2 n2 c2)) ?F1 (meta_path r1) = ?F1 (meta_path r1)"
    unfolding s2 by (rule init_nodes_keeps_out)
  have v1: "?F1 ?g1 = Some ?G1" using d4 by (simp add: f1)
  have v2: "?F1 (meta_path r1) = Some (ClusterJson (meta r1))" by (simp add: f1)
  have c1: "files_after tr2 ?F1 (genesis (meta r1)) = Some ?G1"
    using d1 d3 k1 v1 by (simp add: f2 a1)
  have c2: "files_after tr2 ?F1 (meta_path r1) = Some (ClusterJson (meta r1))"
    using d2 d5 k2 v2 by (simp add: f2)
  have c3: "files_after tr2 ?F1 (genesis (meta r2)) = Some ?G2"
    using d6 by (simp add: f2 a2)
  have c4: "files_after tr2 ?F1 (meta_path r2) = Some (ClusterJson (meta r2))"
    by (simp add: f2)
  have c5: "meta r1 \<noteq> meta r2" using a1 a2 d1 by auto
  from c1 c2 c3 c4 c5 t1 t2 show ?thesis by blast
qed

lemma provision_zero_later:
  "provision_cluster env_later 0 c =
     Some ([Print (LogSigners []),
            WriteFile ''/w/out/genesis_200.json'' (GenesisJson (build_clique_genesis c [] default_gas_limit)),
            Print (LogGenesis ''/w/out/genesis_200.json''),
            NodeInfoCall 8545,
            Print (LogBootEnode ''enode://ab@127.0.0.1:30303''),
            WriteFile ''/w/out/cluster_200.json''
              (ClusterJson \<lparr> timestamp = 200, num_nodes = 0, signers = [],
                              genesis = ''/w/out/genesis_200.json'', pids = [] \<rparr>)],
           Inr \<lparr> meta = \<lparr> timestamp = 200, num_nodes = 0, signers = [],
                            genesis = ''/w/out/genesis_200.json'', pids = [] \<rparr>,
                  meta_path = ''/w/out/cluster_200.json'' \<rparr>)"
proof -
  have "enode_loop (node_info env_later 8545) 8545 0 0 [] =
      Some ([] @ concat (replicate 0 [NodeInfoCall 8545, Sleep 1]) @ [NodeInfoCall 8545], Inr ''enode://ab@127.0.0.1:30303'')"
    by (rule enode_loop_retry) (simp_all add: env_later_def env_same_second_def env_ok_def)
  then have g: "get_enode_via_rpc env_later HTTP_BASE = Some ([NodeInfoCall 8545], Inr ''enode://ab@127.0.0.1:30303'')"
    by (simp add: get_enode_via_rpc_def HTTP_BASE_def)
  have m: "OUT_DIR env_later = ''/w/out''" "\<And>k. clock env_later k = 200"
    "str_int 200 = ''200''" "genesis_path_of env_later = ''/w/out/genesis_200.json''"
    by (simp_all add: genesis_path_of_def env_later_def env_same_second_def env_ok_def OUT_DIR_def str_eval)
  show ?thesis
    using provision_zero [of env_later c]
    by (simp add: g m Let_def path_join_def)
qed

theorem two_runs_keep_files_witness:
  "run_value (provision_cluster env_same_second 0 1515) \<noteq> None \<and>
   run_value (provision_cluster env_later 0 7) \<noteq> None \<and>
   BASE_DIR env_later = BASE_DIR env_same_second \<and>
   clock env_later 0 \<noteq> clock env_same_second 0 \<and>
   clock env_later 2 \<noteq> clock env_same_second 2 \<and>
   files_after (run_events (provision_cluster env_later 0 7))
     (files_after (run_events (provision_cluster env_same_second 0 1515)) Map.empty)
     ''/w/out/genesis_100.json'' = Some (GenesisJson (build_clique_genesis 1515 [] default_gas_limit)) \<and>
   files_after (run_events (provision_cluster env_later 0 7))
     (files_after (run_events (provision_cluster env_same_second 0 1515)) Map.empty)
     ''/w/out/cluster_100.json'' =
       Some (ClusterJson \<lparr> timestamp = 100, num_nodes = 0, signers = [],
                            genesis = ''/w/out/genesis_100.json'', pids = [] \<rparr>)"
proof -
  have b: "BASE_DIR env_later = BASE_DIR env_same_second"
    by (simp add: env_later_def)
  have c: "clock env_later 0 \<noteq> clock env_same_second 0" "clock env_later 2 \<noteq> clock env_same_second 2"
    by (simp_all add: env_later_def env_same_second_def)
  note t = two_runs_keep_files [OF provision_zero_same_second [of 1515] provision_zero_later [of 7] b c,
      of Map.empty]
  from t b c show ?thesis
    by (simp add: provision_zero_same_second provision_zero_later run_value_def run_events_def)
qed

theorem same_second_runs_counterexample:
  "run_value (provision_cluster env_same_second 0 1515) \<noteq> None \<and>
   map_option meta (run_value (provision_cluster env_same_second 0 7))
     = map_option meta (run_value (provision_cluster env_same_second 0 1515)) \<and>
   files_after (run_events (provision_cluster env_same_second 0 1515)) Map.empty ''/w/out/genesis_100.json''
     = Some (GenesisJson (build_clique_genesis 1515 [] default_gas_limit)) \<and>
   files_after (run_events (provision_cluster env_same_second 0 7))
     (files_after (run_events (provision_cluster env_same_second 0 1515)) Map.empty)
     ''/w/out/genesis_100.json''
     = Some (GenesisJson (build_clique_genesis 7 [] default_gas_limit)) \<and>
   build_clique_genesis 7 [] default_gas_limit \<noteq> build_clique_genesis 1515 [] default_gas_limit"
  by (simp add: provision_zero_same_second run_value_def run_events_def files_after_def)
     (simp add: build_clique_genesis_def Let_def)

end
